theory Spec2Isabelle
  imports Complex_Main "HOL-Library.Multiset"
begin

section \<open>Numeric arrays\<close>

text \<open>
  The notebooks compute with numpy float64 values. They are modelled as real numbers:
  rounding, overflow and underflow are outside the model. Where numpy would produce a
  non-finite value (a division by zero gives inf or nan with a RuntimeWarning) and where
  Python's math module raises on a real argument, the model returns an error value
  instead. What float64 does beyond the reals is outside the model: a square that
  overflows makes \<open>numpy.linalg.norm\<close> return inf, on which \<open>math.cos\<close> raises ValueError;
  a square that underflows makes it return 0.0; and \<open>math.pow\<close> and \<open>math.exp\<close> raise
  OverflowError on a result too large for a float.

  A row of the 3x3 coordinate array \<open>atoms\<close> is a triple of reals; the array is the list
  of its rows. A two-dimensional array is the list of its rows.
\<close>

datatype error = DivideByZero | ValueError

type_synonym vec3 = "real \<times> real \<times> real"

text \<open>\<open>atoms[i] - atoms[j]\<close>, \<open>numpy.dot\<close> and \<open>numpy.linalg.norm\<close> on rows, in exact
  arithmetic (no overflow to inf, no underflow to 0.0).\<close>

fun vsub :: "vec3 \<Rightarrow> vec3 \<Rightarrow> vec3" where
  "vsub (a, b, c) (x, y, z) = (a - x, b - y, c - z)"

fun numpy_dot :: "vec3 \<Rightarrow> vec3 \<Rightarrow> real" where
  "numpy_dot (a, b, c) (x, y, z) = a * x + b * y + c * z"

definition linalg_norm :: "vec3 \<Rightarrow> real" where
  "linalg_norm v = sqrt (numpy_dot v v)"

text \<open>\<open>numpy.zeros((m, n))\<close>, and the in-place updates \<open>G[i,k] += v\<close> and \<open>G[i,k] = v\<close>.
  Every index the loops below use is in range (Python would raise IndexError elsewhere;
  the list update leaves the array as it is).\<close>

definition zeros :: "nat \<Rightarrow> nat \<Rightarrow> real list list" where
  "zeros m n = replicate m (replicate n 0)"

definition add_at :: "nat \<Rightarrow> nat \<Rightarrow> real \<Rightarrow> real list list \<Rightarrow> real list list" where
  "add_at i k v G = G[i := (G ! i)[k := G ! i ! k + v]]"

definition set_at :: "nat \<Rightarrow> nat \<Rightarrow> real \<Rightarrow> real list list \<Rightarrow> real list list" where
  "set_at i k v G = G[i := (G ! i)[k := v]]"

text \<open>A loop whose body may fail: the first error ends it, as an exception would.\<close>

definition bind_err :: "error + 'a \<Rightarrow> ('a \<Rightarrow> error + 'b) \<Rightarrow> error + 'b" where
  "bind_err r f = (case r of Inl e \<Rightarrow> Inl e | Inr x \<Rightarrow> f x)"

fun fold_err :: "('a \<Rightarrow> 's \<Rightarrow> error + 's) \<Rightarrow> 'a list \<Rightarrow> 's \<Rightarrow> error + 's" where
  "fold_err f [] s = Inr s"
| "fold_err f (x # xs) s = (case f x s of Inl e \<Rightarrow> Inl e | Inr s' \<Rightarrow> fold_err f xs s')"

text \<open>Division of numpy floats: a zero divisor gives inf or nan, recorded as an error.\<close>

definition np_divide :: "real \<Rightarrow> real \<Rightarrow> error + real" where
  "np_divide x d = (if d = 0 then Inl DivideByZero else Inr (x / d))"

text \<open>\<open>math.pow(x, y)\<close> for an integer exponent: ValueError at \<open>0\<close> to a negative power.
  Its OverflowError belongs to the floats and is not modelled.\<close>

definition math_pow :: "real \<Rightarrow> int \<Rightarrow> error + real" where
  "math_pow x y = (if x = 0 \<and> y < 0 then Inl ValueError else Inr (x powi y))"


section \<open>The trimer notebook (ACSF.ipynb)\<close>

definition Rcut :: real where
  "Rcut = 5"

text \<open>\<open>def fcut(r): return (math.cos(math.pi * r/Rcut)+1) * 0.5\<close>\<close>

definition fcut :: "real \<Rightarrow> real" where
  "fcut r = (cos (pi * r / Rcut) + 1) * 0.5"

text \<open>The distance \<open>numpy.linalg.norm(atoms[i]-atoms[j])\<close>.\<close>

definition rdist :: "vec3 list \<Rightarrow> nat \<Rightarrow> nat \<Rightarrow> real" where
  "rdist atoms i j = linalg_norm (vsub (atoms ! i) (atoms ! j))"

text \<open>The coordinates the notebook generates: \<open>theta = 30\<close>, \<open>theta *= math.pi/180\<close>,
  \<open>atoms[1] = [cos(theta), -sin(theta), 0]\<close>, \<open>atoms[2] = [-cos(theta), -sin(theta), 0]\<close>,
  row 0 left at zero.\<close>

definition theta :: real where
  "theta = 30 * (pi / 180)"

definition atoms_trimer :: "vec3 list" where
  "atoms_trimer = [(0, 0, 0), (cos theta, - sin theta, 0), (- cos theta, - sin theta, 0)]"

text \<open>The parameter list \<open>p\<close> of the G1 cell.\<close>

definition p_G1 :: "(real \<times> real) list" where
  "p_G1 = [(0.4, 0.2), (0.4, 0.5), (0.4, 1.0), (0.5, 2.0), (0.5, 3.0), (0.5, 4.0)]"

subsection \<open>G0\<close>

text \<open>The body of the loop over \<open>j\<close>, and the two loops over \<open>range(3)\<close> that start from
  \<open>numpy.zeros(3)\<close>.\<close>

definition G0_step :: "vec3 list \<Rightarrow> nat \<Rightarrow> nat \<Rightarrow> real list \<Rightarrow> real list" where
  "G0_step atoms i j G =
     (if i = j then G
      else let r = rdist atoms i j in
        if r > Rcut then G else G[i := G ! i + fcut r])"

definition G0 :: "vec3 list \<Rightarrow> real list" where
  "G0 atoms = fold (\<lambda>i. fold (G0_step atoms i) [0..<3]) [0..<3] (replicate 3 0)"

subsection \<open>G1\<close>

text \<open>\<open>def G1f(x, eta, Rs)\<close>, with the cutoff formula written out as in the source.\<close>

definition G1f :: "real \<Rightarrow> real \<Rightarrow> real \<Rightarrow> real" where
  "G1f x eta Rs = exp (- eta * (x - Rs) * (x - Rs)) * ((cos (pi * x / Rcut) + 1) * 0.5)"

definition G1_add :: "(real \<times> real) list \<Rightarrow> nat \<Rightarrow> real \<Rightarrow> nat \<Rightarrow> real list list \<Rightarrow> real list list" where
  "G1_add p i r k G = (case p ! k of (eta, rs) \<Rightarrow> add_at i k (G1f r eta rs) G)"

definition G1_step :: "vec3 list \<Rightarrow> (real \<times> real) list \<Rightarrow> nat \<Rightarrow> nat \<Rightarrow> real list list \<Rightarrow> real list list" where
  "G1_step atoms p i j G =
     (if i = j then G
      else let r = rdist atoms i j in
        if r > Rcut then G else fold (G1_add p i r) [0..<length p] G)"

definition G1 :: "vec3 list \<Rightarrow> (real \<times> real) list \<Rightarrow> real list list" where
  "G1 atoms p = fold (\<lambda>i. fold (G1_step atoms p i) [0..<3]) [0..<3] (zeros 3 (length p))"

subsection \<open>G4\<close>

text \<open>\<open>def G4f(cost, rij, rik, rjk, eta, zeta, lamb)\<close>. The parameter lists of the notebook
  give \<open>zeta\<close> as a Python int.\<close>

definition G4f :: "real \<Rightarrow> real \<Rightarrow> real \<Rightarrow> real \<Rightarrow> real \<Rightarrow> int \<Rightarrow> real \<Rightarrow> error + real" where
  "G4f cost rij rik rjk eta zeta lamb =
     bind_err (math_pow 2 (1 - zeta)) (\<lambda>a.
     bind_err (math_pow (1 + lamb * cost) zeta) (\<lambda>b.
       let result = a * b;
           result = result * exp (- eta * (rij * rij + rik * rik + rjk * rjk))
       in Inr (result * fcut rij * fcut rjk * fcut rik)))"

text \<open>The innermost loop \<open>for k in range(len(p))\<close> reuses the name \<open>k\<close>; the distances and
  the cosine are computed before it, and the enclosing \<open>for k in range(3)\<close> takes its next
  value from its iterator, so the parameter index is a variable of its own here (\<open>m\<close>).\<close>

definition G4_add :: "(real \<times> int \<times> real) list \<Rightarrow> nat \<Rightarrow> real \<Rightarrow> real \<Rightarrow> real \<Rightarrow> real \<Rightarrow> nat
    \<Rightarrow> real list list \<Rightarrow> error + real list list" where
  "G4_add p i cost rij rik rjk m G =
     (case p ! m of (eta, zeta, lamb) \<Rightarrow>
        bind_err (G4f cost rij rik rjk eta zeta lamb) (\<lambda>v. Inr (add_at i m v G)))"

definition G4_k_step :: "vec3 list \<Rightarrow> (real \<times> int \<times> real) list \<Rightarrow> nat \<Rightarrow> nat \<Rightarrow> real \<Rightarrow> nat
    \<Rightarrow> real list list \<Rightarrow> error + real list list" where
  "G4_k_step atoms p i j rij k G =
     (if k = i \<or> k = j then Inr G
      else let rik = rdist atoms i k;
               rjk = rdist atoms j k;
               cost = numpy_dot (vsub (atoms ! i) (atoms ! k)) (vsub (atoms ! i) (atoms ! j))
        in bind_err (np_divide cost (rij * rik)) (\<lambda>cost.
             fold_err (G4_add p i cost rij rik rjk) [0..<length p] G))"

definition G4_j_step :: "vec3 list \<Rightarrow> (real \<times> int \<times> real) list \<Rightarrow> nat \<Rightarrow> nat
    \<Rightarrow> real list list \<Rightarrow> error + real list list" where
  "G4_j_step atoms p i j G =
     (if i = j then Inr G
      else let rij = rdist atoms i j in
        if rij > Rcut then Inr G else fold_err (G4_k_step atoms p i j rij) [0..<3] G)"

definition G4 :: "vec3 list \<Rightarrow> (real \<times> int \<times> real) list \<Rightarrow> error + real list list" where
  "G4 atoms p =
     fold_err (\<lambda>i. fold_err (G4_j_step atoms p i) [0..<3]) [0..<3] (zeros 3 (length p))"

text \<open>The parameter list \<open>p\<close> of the G4 cell.\<close>

definition p_G4 :: "(real \<times> int \<times> real) list" where
  "p_G4 = [(0.4, 1, 1), (0.4, 2, 1), (0.4, 3, 1), (0.8, 1, 1), (0.8, 2, 1)]"


section \<open>The dimer notebook (ACSF-Dimer.ipynb)\<close>

text \<open>\<open>def fcut(r): if r >= Rcut: return 0 ...\<close> and \<open>def G1f(r, eta, Rs)\<close>; the notebook
  sets the same \<open>Rcut = 5.0\<close>.\<close>

definition fcut_dimer :: "real \<Rightarrow> real" where
  "fcut_dimer r = (if r \<ge> Rcut then 0 else (cos (pi * r / Rcut) + 1) * 0.5)"

definition G1f_dimer :: "real \<Rightarrow> real \<Rightarrow> real \<Rightarrow> real" where
  "G1f_dimer r eta Rs = exp (- eta * (r - Rs) * (r - Rs)) * fcut_dimer r"

text \<open>The list \<open>params\<close> of the notebook.\<close>

definition params_dimer :: "(real \<times> real) list" where
  "params_dimer = [(0.4, 0.2), (0.4, 0.5)]"

subsection \<open>Filling the matrix acsf\<close>

definition acsf_param_step :: "(real \<times> real) list \<Rightarrow> nat \<Rightarrow> real \<Rightarrow> nat \<Rightarrow> real list list \<Rightarrow> real list list" where
  "acsf_param_step params k r q G =
     (case params ! q of (eta, rs) \<Rightarrow> set_at k (1 + q) (G1f_dimer r eta rs) G)"

definition acsf_conf_step :: "real list \<Rightarrow> (real \<times> real) list \<Rightarrow> nat \<Rightarrow> real list list \<Rightarrow> real list list" where
  "acsf_conf_step dists params k G =
     (let r = dists ! k;
          G = set_at k 0 (fcut_dimer r) G
      in fold (acsf_param_step params k r) [0..<length params] G)"

definition acsf_fill :: "real list \<Rightarrow> (real \<times> real) list \<Rightarrow> real list list" where
  "acsf_fill dists params =
     (let nConfs = length dists
      in fold (acsf_conf_step dists params) [0..<nConfs] (zeros nConfs (1 + length params)))"

subsection \<open>Shifting and scaling the columns\<close>

text \<open>\<open>M.shape[1]\<close>, the column \<open>M[:,a]\<close>, \<open>numpy.mean(M, axis=0)\<close> and
  \<open>numpy.std(M, axis=0)\<close> (the population standard deviation). An array with no rows has
  no entry for a column loop to change, so its column count is taken as 0.\<close>

definition ncols :: "real list list \<Rightarrow> nat" where
  "ncols M = (case M of [] \<Rightarrow> 0 | row # _ \<Rightarrow> length row)"

definition column :: "nat \<Rightarrow> real list list \<Rightarrow> real list" where
  "column a M = map (\<lambda>row. row ! a) M"

definition mean :: "real list \<Rightarrow> real" where
  "mean xs = sum_list xs / real (length xs)"

definition std :: "real list \<Rightarrow> real" where
  "std xs = sqrt (mean (map (\<lambda>x. \<bar>x - mean xs\<bar>\<^sup>2) xs))"

definition mean_axis0 :: "real list list \<Rightarrow> real list" where
  "mean_axis0 M = map (\<lambda>a. mean (column a M)) [0..<ncols M]"

definition std_axis0 :: "real list list \<Rightarrow> real list" where
  "std_axis0 M = map (\<lambda>a. std (column a M)) [0..<ncols M]"

text \<open>\<open>M[:,a] -= v\<close> and \<open>M[:,a] /= v\<close>; the division fails when an entry is divided by 0.\<close>

definition sub_column :: "real list \<Rightarrow> nat \<Rightarrow> real list list \<Rightarrow> real list list" where
  "sub_column vs a M = map (\<lambda>row. row[a := row ! a - vs ! a]) M"

definition div_column :: "real list \<Rightarrow> nat \<Rightarrow> real list list \<Rightarrow> error + real list list" where
  "div_column vs a M =
     (if vs ! a = 0 \<and> M \<noteq> [] then Inl DivideByZero
      else Inr (map (\<lambda>row. row[a := row ! a / vs ! a]) M))"

text \<open>The cell that centres and rescales \<open>acsf\<close> in place.\<close>

definition standardize :: "real list list \<Rightarrow> error + real list list" where
  "standardize acsf =
     (let acsf_mean = mean_axis0 acsf;
          acsf = fold (sub_column acsf_mean) [0..<ncols acsf] acsf;
          acsf_std = std_axis0 acsf
      in fold_err (div_column acsf_std) [0..<ncols acsf] acsf)"


section \<open>The energy-prediction notebook\<close>

text \<open>Python's \<open>xs[a:b]\<close>: a negative index counts from the end, and both are clamped.\<close>

definition slice_index :: "int \<Rightarrow> int \<Rightarrow> int" where
  "slice_index n i = (if i < 0 then max 0 (n + i) else min n i)"

definition py_slice :: "'a list \<Rightarrow> int \<Rightarrow> int \<Rightarrow> 'a list" where
  "py_slice xs a b =
     (let n = int (length xs); lo = slice_index n a; hi = slice_index n b
      in take (nat (hi - lo)) (drop (nat lo) xs))"

text \<open>\<open>samples = min(trainIn.shape[0], 9000)\<close> and
  \<open>vsamples = min(trainIn.shape[0]-samples, 1000)\<close>, on Python ints.\<close>

definition samples :: "int \<Rightarrow> int" where
  "samples rows = min rows 9000"

definition vsamples :: "int \<Rightarrow> int" where
  "vsamples rows = min (rows - samples rows) 1000"

definition split_train :: "'a list \<Rightarrow> 'a list" where
  "split_train loaded = py_slice loaded 0 (samples (int (length loaded)))"

definition split_valid :: "'a list \<Rightarrow> 'a list" where
  "split_valid loaded =
     (let rows = int (length loaded)
      in py_slice loaded (samples rows) (samples rows + vsamples rows))"

text \<open>\<open>train_std[train_std==0] = 1\<close>\<close>

definition guard_std :: "real list \<Rightarrow> real list" where
  "guard_std train_std = map (\<lambda>s. if s = 0 then 1 else s) train_std"

text \<open>The split and the scaling of the loaded array. \<open>trainIn\<close> and \<open>validIn\<close> are views
  of the loaded array on the two row ranges of the split; each is a matrix of its own
  here.\<close>

definition energy_scale :: "real list list \<Rightarrow> error + (real list list \<times> real list list)" where
  "energy_scale loaded =
     (let validIn = split_valid loaded;
          trainIn = split_train loaded;
          train_mean = mean_axis0 trainIn;
          train_std = guard_std (std_axis0 trainIn);
          trainIn = fold (sub_column train_mean) [0..<ncols trainIn] trainIn
      in bind_err (fold_err (div_column train_std) [0..<ncols trainIn] trainIn) (\<lambda>trainIn.
           let validIn = fold (sub_column train_mean) [0..<ncols validIn] validIn
           in bind_err (fold_err (div_column train_std) [0..<ncols validIn] validIn) (\<lambda>validIn.
                Inr (trainIn, validIn))))"


section \<open>The evaluators as calls on the notebook's state\<close>

text \<open>
  The functions \<open>fcut\<close>, \<open>G1f\<close> and \<open>G4f\<close> of the trimer notebook read the global \<open>Rcut\<close>
  when they are called. Here the notebook's globals are a record, and a call takes the
  state and returns its result with the state after the call. \<open>G4f\<close> calls \<open>fcut\<close> three
  times, in the order \<open>rij\<close>, \<open>rjk\<close>, \<open>rik\<close>. The division by the global is the only
  operation that depends on the state.
\<close>

record notebook =
  Rcut_var :: real
  atoms_var :: "vec3 list"
  p_var :: "(real \<times> int \<times> real) list"
  G0_var :: "real list"
  G1_var :: "real list list"
  G4_var :: "real list list"

definition fcut_call :: "real \<Rightarrow> notebook \<Rightarrow> (error + real) \<times> notebook" where
  "fcut_call r s =
     (bind_err (np_divide (pi * r) (Rcut_var s)) (\<lambda>x. Inr ((cos x + 1) * 0.5)), s)"

definition G1f_call :: "real \<Rightarrow> real \<Rightarrow> real \<Rightarrow> notebook \<Rightarrow> (error + real) \<times> notebook" where
  "G1f_call x eta Rs s =
     (bind_err (np_divide (pi * x) (Rcut_var s)) (\<lambda>y.
        Inr (exp (- eta * (x - Rs) * (x - Rs)) * ((cos y + 1) * 0.5))), s)"

definition G4f_call :: "real \<Rightarrow> real \<Rightarrow> real \<Rightarrow> real \<Rightarrow> real \<Rightarrow> int \<Rightarrow> real \<Rightarrow> notebook
    \<Rightarrow> (error + real) \<times> notebook" where
  "G4f_call cost rij rik rjk eta zeta lamb s =
     (case bind_err (math_pow 2 (1 - zeta)) (\<lambda>a.
           bind_err (math_pow (1 + lamb * cost) zeta) (\<lambda>b.
             let result = a * b
             in Inr (result * exp (- eta * (rij * rij + rik * rik + rjk * rjk))))) of
        Inl e \<Rightarrow> (Inl e, s)
      | Inr result \<Rightarrow>
          (case fcut_call rij s of
             (Inl e, s1) \<Rightarrow> (Inl e, s1)
           | (Inr f1, s1) \<Rightarrow>
               (case fcut_call rjk s1 of
                  (Inl e, s2) \<Rightarrow> (Inl e, s2)
                | (Inr f2, s2) \<Rightarrow>
                    (case fcut_call rik s2 of
                       (Inl e, s3) \<Rightarrow> (Inl e, s3)
                     | (Inr f3, s3) \<Rightarrow> (Inr (result * f1 * f2 * f3), s3)))))"


section \<open>Auxiliary notions\<close>

text \<open>An array of \<open>m\<close> rows and \<open>n\<close> columns.\<close>

definition shape :: "nat \<Rightarrow> nat \<Rightarrow> real list list \<Rightarrow> bool" where
  "shape m n G \<longleftrightarrow> length G = m \<and> (\<forall>row\<in>set G. length row = n)"

text \<open>What one pass of the loop body adds to \<open>G0[i]\<close> and to \<open>G1[i,k]\<close> for the atom \<open>j\<close>.\<close>

definition G0_term :: "vec3 list \<Rightarrow> nat \<Rightarrow> nat \<Rightarrow> real" where
  "G0_term atoms i j = (if j \<noteq> i \<and> rdist atoms i j \<le> Rcut then fcut (rdist atoms i j) else 0)"

definition G1_term :: "vec3 list \<Rightarrow> (real \<times> real) list \<Rightarrow> nat \<Rightarrow> nat \<Rightarrow> nat \<Rightarrow> real" where
  "G1_term atoms p i k j =
     (if j \<noteq> i \<and> rdist atoms i j \<le> Rcut
      then G1f (rdist atoms i j) (fst (p ! k)) (snd (p ! k)) else 0)"

text \<open>The cosine \<open>cost\<close> as the G4 loop computes it, the value \<open>G4f\<close> returns for a triplet
  when no call of \<open>math.pow\<close> fails, and what one pass of the loop body adds to \<open>G4[i,m]\<close>.\<close>

definition cos_angle :: "vec3 list \<Rightarrow> nat \<Rightarrow> nat \<Rightarrow> nat \<Rightarrow> real" where
  "cos_angle atoms i j k =
     numpy_dot (vsub (atoms ! i) (atoms ! k)) (vsub (atoms ! i) (atoms ! j))
       / (rdist atoms i j * rdist atoms i k)"

definition G4_val :: "vec3 list \<Rightarrow> (real \<times> int \<times> real) list \<Rightarrow> nat \<Rightarrow> nat \<Rightarrow> nat \<Rightarrow> nat \<Rightarrow> real" where
  "G4_val atoms p i j k m =
     (case p ! m of (eta, zeta, lamb) \<Rightarrow>
        2 powi (1 - zeta) * (1 + lamb * cos_angle atoms i j k) powi zeta
          * exp (- eta * (rdist atoms i j * rdist atoms i j + rdist atoms i k * rdist atoms i k
                          + rdist atoms j k * rdist atoms j k))
          * fcut (rdist atoms i j) * fcut (rdist atoms j k) * fcut (rdist atoms i k))"

definition G4_term :: "vec3 list \<Rightarrow> (real \<times> int \<times> real) list \<Rightarrow> nat \<Rightarrow> nat \<Rightarrow> nat \<Rightarrow> nat \<Rightarrow> real" where
  "G4_term atoms p i m j k =
     (if j \<noteq> i \<and> rdist atoms i j \<le> Rcut \<and> k \<noteq> i \<and> k \<noteq> j then G4_val atoms p i j k m else 0)"

text \<open>The passes of the G4 loops that raise nothing: the divisor \<open>rij * rik\<close> is not zero and
  no parameter triple asks for a negative power of zero.\<close>

definition pow_ok :: "vec3 list \<Rightarrow> (real \<times> int \<times> real) list \<Rightarrow> nat \<Rightarrow> nat \<Rightarrow> nat \<Rightarrow> nat \<Rightarrow> bool" where
  "pow_ok atoms p i j k m =
     (case p ! m of (eta, zeta, lamb) \<Rightarrow> \<not> (1 + lamb * cos_angle atoms i j k = 0 \<and> zeta < 0))"

definition k_ok :: "vec3 list \<Rightarrow> (real \<times> int \<times> real) list \<Rightarrow> nat \<Rightarrow> nat \<Rightarrow> nat \<Rightarrow> bool" where
  "k_ok atoms p i j k \<longleftrightarrow>
     k = i \<or> k = j \<or>
     (rdist atoms i j * rdist atoms i k \<noteq> 0 \<and> (\<forall>m<length p. pow_ok atoms p i j k m))"

definition j_ok :: "vec3 list \<Rightarrow> (real \<times> int \<times> real) list \<Rightarrow> nat \<Rightarrow> nat \<Rightarrow> bool" where
  "j_ok atoms p i j \<longleftrightarrow> i = j \<or> rdist atoms i j > Rcut \<or> (\<forall>k<3. k_ok atoms p i j k)"

definition G4_ok :: "vec3 list \<Rightarrow> (real \<times> int \<times> real) list \<Rightarrow> bool" where
  "G4_ok atoms p \<longleftrightarrow> (\<forall>i<3. \<forall>j<3. j_ok atoms p i j)"

text \<open>The G4 loops with the error branches left out.\<close>

definition G4_k_pure :: "vec3 list \<Rightarrow> (real \<times> int \<times> real) list \<Rightarrow> nat \<Rightarrow> nat \<Rightarrow> nat
    \<Rightarrow> real list list \<Rightarrow> real list list" where
  "G4_k_pure atoms p i j k G =
     (if k = i \<or> k = j then G
      else fold (\<lambda>m. add_at i m (G4_val atoms p i j k m)) [0..<length p] G)"

definition G4_j_pure :: "vec3 list \<Rightarrow> (real \<times> int \<times> real) list \<Rightarrow> nat \<Rightarrow> nat
    \<Rightarrow> real list list \<Rightarrow> real list list" where
  "G4_j_pure atoms p i j G =
     (if i = j \<or> rdist atoms i j > Rcut then G else fold (G4_k_pure atoms p i j) [0..<3] G)"

definition G4_pure :: "vec3 list \<Rightarrow> (real \<times> int \<times> real) list \<Rightarrow> real list list" where
  "G4_pure atoms p = fold (\<lambda>i. fold (G4_j_pure atoms p i) [0..<3]) [0..<3] (zeros 3 (length p))"

text \<open>The coordinate array with its rows reordered by \<open>\<pi>\<close>, for a permutation \<open>\<pi>\<close> of the
  row indices 0, 1, 2; and the permutation that exchanges rows 1 and 2.\<close>

definition permuted :: "(nat \<Rightarrow> nat) \<Rightarrow> vec3 list \<Rightarrow> vec3 list" where
  "permuted \<pi> atoms = map (\<lambda>x. atoms ! \<pi> x) [0..<3]"

definition perm3 :: "(nat \<Rightarrow> nat) \<Rightarrow> bool" where
  "perm3 \<pi> \<longleftrightarrow> inj_on \<pi> {..<3} \<and> \<pi> ` {..<3} \<subseteq> {..<3}"

definition swap12 :: "nat \<Rightarrow> nat" where
  "swap12 x = (if x = 1 then 2 else if x = 2 then 1 else x)"


text \<open>A column whose entries are all equal, the row the fill loop gives a configuration
  at distance \<open>r\<close>, and a state of the notebook after the cell that sets \<open>Rcut = 5.0\<close>.\<close>

definition constant_column :: "real list \<Rightarrow> bool" where
  "constant_column xs \<longleftrightarrow> (\<forall>x\<in>set xs. \<forall>y\<in>set xs. x = y)"

definition acsf_row :: "(real \<times> real) list \<Rightarrow> real \<Rightarrow> real list" where
  "acsf_row params r = fcut_dimer r # map (\<lambda>(eta, rs). G1f_dimer r eta rs) params"

definition notebook0 :: notebook where
  "notebook0 = \<lparr>Rcut_var = 5, atoms_var = atoms_trimer, p_var = [], G0_var = [], G1_var = [], G4_var = []\<rparr>"


section \<open>The train/validation split\<close>

lemma samples_bounds: "0 \<le> rows \<Longrightarrow> 0 \<le> samples rows \<and> samples rows \<le> rows"
  by (simp add: samples_def)

lemma vsamples_bounds:
  "0 \<le> rows \<Longrightarrow> 0 \<le> vsamples rows \<and> samples rows + vsamples rows \<le> rows"
  by (auto simp: vsamples_def samples_def)

lemma py_slice_nonneg:
  "0 \<le> a \<Longrightarrow> a \<le> b \<Longrightarrow> py_slice xs a b = take (nat b - nat a) (drop (nat a) xs)"
  by (auto simp: py_slice_def slice_index_def Let_def min_def nat_diff_distrib' take_all drop_all)

lemma split_train_take: "split_train loaded = take (nat (samples (int (length loaded)))) loaded"
proof -
  have "0 \<le> samples (int (length loaded))"
    using samples_bounds [of "int (length loaded)"] by simp
  then show ?thesis
    by (simp add: split_train_def py_slice_nonneg)
qed

lemma split_valid_take:
  "split_valid loaded =
     take (nat (vsamples (int (length loaded)))) (drop (nat (samples (int (length loaded)))) loaded)"
proof -
  let ?s = "samples (int (length loaded))" and ?v = "vsamples (int (length loaded))"
  have s: "0 \<le> ?s" and v: "0 \<le> ?v"
    using samples_bounds [of "int (length loaded)"] vsamples_bounds [of "int (length loaded)"]
    by simp_all
  then have "nat (?s + ?v) - nat ?s = nat ?v"
    by (simp add: nat_add_distrib)
  with s v show ?thesis
    by (simp add: split_valid_def Let_def py_slice_nonneg)
qed

text \<open>
  Claim C10. With \<open>samples = min(rows, 9000)\<close> and \<open>vsamples = min(rows - samples, 1000)\<close>,
  for every size of the loaded array: neither count is negative and their sum is at most
  the number of loaded rows, so the training slice \<open>[0:samples]\<close> and the validation slice
  \<open>[samples:samples+vsamples]\<close> lie within the loaded array and have exactly \<open>samples\<close> and
  \<open>vsamples\<close> rows; they are consecutive, disjoint pieces of it (the training slice followed
  by the validation slice is the prefix of length \<open>samples + vsamples\<close>), and their index
  ranges do not meet.
\<close>

theorem split_disjoint_in_bounds:
  "0 \<le> samples (int (length loaded)) \<and> 0 \<le> vsamples (int (length loaded))
     \<and> samples (int (length loaded)) + vsamples (int (length loaded)) \<le> int (length loaded)
     \<and> int (length (split_train loaded)) = samples (int (length loaded))
     \<and> int (length (split_valid loaded)) = vsamples (int (length loaded))
     \<and> split_train loaded @ split_valid loaded
         = take (nat (samples (int (length loaded)) + vsamples (int (length loaded)))) loaded
     \<and> {0..<samples (int (length loaded))}
         \<inter> {samples (int (length loaded))..<samples (int (length loaded)) + vsamples (int (length loaded))} = {}"
proof -
  let ?s = "samples (int (length loaded))" and ?v = "vsamples (int (length loaded))"
  have s: "0 \<le> ?s" "?s \<le> int (length loaded)"
    using samples_bounds [of "int (length loaded)"] by simp_all
  have v: "0 \<le> ?v" "?s + ?v \<le> int (length loaded)"
    using vsamples_bounds [of "int (length loaded)"] by simp_all
  have lt: "int (length (split_train loaded)) = ?s"
    using s by (simp add: split_train_take)
  have lv: "int (length (split_valid loaded)) = ?v"
    using s v by (simp add: split_valid_take)
  have "take (nat ?s) loaded @ take (nat ?v) (drop (nat ?s) loaded) = take (nat ?s + nat ?v) loaded"
    by (simp add: take_add)
  then have app: "split_train loaded @ split_valid loaded = take (nat (?s + ?v)) loaded"
    using s v by (simp add: split_train_take split_valid_take nat_add_distrib)
  have "{0..<?s} \<inter> {?s..<?s + ?v} = {}"
    by auto
  with s v lt lv app show ?thesis
    by simp
qed


section \<open>Accumulating loops\<close>

lemma upt_3: "[0..<3] = [0, 1, 2]"
  by (simp add: upt_rec)

lemma shape_zeros: "shape m n (zeros m n)"
  by (simp add: shape_def zeros_def)

lemma shape_nth: "shape m n G \<Longrightarrow> i < m \<Longrightarrow> length (G ! i) = n"
  by (metis nth_mem shape_def)

lemma sum_list_delta:
  "distinct xs \<Longrightarrow> (\<Sum>x\<leftarrow>xs. if i = x then h x else 0) = (if i \<in> set xs then (h i :: real) else 0)"
  by (induction xs) auto

lemma shape_list_update:
  "shape m n G \<Longrightarrow> length row = n \<Longrightarrow> shape m n (G[i := row])"
  by (auto simp: shape_def dest!: set_update_subset_insert [THEN subsetD])

lemma shape_add_at: "shape m n G \<Longrightarrow> shape m n (add_at i k v G)"
proof (cases "i < length G")
  case True
  assume "shape m n G"
  with True show ?thesis
    unfolding add_at_def by (intro shape_list_update) (simp_all add: shape_def)
next
  case False
  assume "shape m n G"
  with False show ?thesis
    by (simp add: add_at_def list_update_beyond)
qed

lemma nth_add_at:
  "shape m n G \<Longrightarrow> i' < m \<Longrightarrow> k' < n \<Longrightarrow>
     add_at i k v G ! i' ! k' = G ! i' ! k' + (if i' = i \<and> k' = k then v else 0)"
  by (cases "i' = i") (auto simp: shape_def add_at_def nth_list_update)

lemma fold_acc:
  assumes "\<And>x s. x \<in> set xs \<Longrightarrow> I s \<Longrightarrow> I (f x s) \<and> g (f x s) = g s + c x"
    and "I s"
  shows "I (fold f xs s) \<and> g (fold f xs s) = (g s :: real) + sum_list (map c xs)"
  using assms
proof (induction xs arbitrary: s)
  case Nil
  then show ?case by simp
next
  case (Cons x xs)
  have st: "I (f x s) \<and> g (f x s) = g s + c x"
    using Cons.prems by simp
  have "I (fold f xs (f x s)) \<and> g (fold f xs (f x s)) = g (f x s) + sum_list (map c xs)"
    using Cons.prems st by (intro Cons.IH) simp_all
  with st show ?case by simp
qed

subsection \<open>G0 as a sum over the other atoms\<close>

lemma G0_step_acc:
  assumes "length G = 3" "i' < 3"
  shows "length (G0_step atoms i j G) = 3 \<and>
         G0_step atoms i j G ! i' = G ! i' + (if i' = i then G0_term atoms i j else 0)"
  using assms by (auto simp: G0_step_def G0_term_def Let_def nth_list_update)

lemma G0_row_acc:
  assumes "length G = 3" "i' < 3"
  shows "length (fold (G0_step atoms i) [0..<3] G) = 3 \<and>
         fold (G0_step atoms i) [0..<3] G ! i'
           = G ! i' + (if i' = i then \<Sum>j\<leftarrow>[0..<3]. G0_term atoms i j else 0)"
proof -
  have "length (fold (G0_step atoms i) [0..<3] G) = 3 \<and>
         fold (G0_step atoms i) [0..<3] G ! i'
           = G ! i' + (\<Sum>j\<leftarrow>[0..<3]. if i' = i then G0_term atoms i j else 0)"
    using assms
      fold_acc [where I = "\<lambda>G. length G = 3" and g = "\<lambda>G. G ! i'" and f = "G0_step atoms i"
        and c = "\<lambda>j. if i' = i then G0_term atoms i j else 0" and xs = "[0..<3]" and s = G]
    by (simp add: G0_step_acc)
  then show ?thesis
    by (cases "i' = i") simp_all
qed

lemma G0_entry:
  assumes "i < 3"
  shows "G0 atoms ! i = (\<Sum>j\<leftarrow>[0..<3]. G0_term atoms i j)"
proof -
  have "length (G0 atoms) = 3 \<and> G0 atoms ! i = replicate 3 0 ! i
          + (\<Sum>i'\<leftarrow>[0..<3]. if i = i' then \<Sum>j\<leftarrow>[0..<3]. G0_term atoms i' j else 0)"
    unfolding G0_def using assms
      fold_acc [where I = "\<lambda>G. length G = 3" and g = "\<lambda>G. G ! i"
        and f = "\<lambda>i. fold (G0_step atoms i) [0..<3]"
        and c = "\<lambda>i'. if i = i' then \<Sum>j\<leftarrow>[0..<3]. G0_term atoms i' j else 0"
        and xs = "[0..<3]" and s = "replicate 3 0"]
    by (simp add: G0_row_acc)
  with assms show ?thesis
    by (simp add: sum_list_delta)
qed


subsection \<open>G1 as a sum over the other atoms\<close>

lemma G1_add_acc:
  assumes "shape 3 (length p) G" "i' < 3" "k' < length p"
  shows "shape 3 (length p) (G1_add p i r k G) \<and>
         G1_add p i r k G ! i' ! k'
           = G ! i' ! k' + (if k' = k then if i' = i then G1f r (fst (p ! k)) (snd (p ! k)) else 0 else 0)"
  using assms by (simp add: G1_add_def split_beta shape_add_at nth_add_at)

lemma G1_params_acc:
  assumes "shape 3 (length p) G" "i' < 3" "k' < length p"
  shows "shape 3 (length p) (fold (G1_add p i r) [0..<length p] G) \<and>
         fold (G1_add p i r) [0..<length p] G ! i' ! k'
           = G ! i' ! k' + (if i' = i then G1f r (fst (p ! k')) (snd (p ! k')) else 0)"
proof -
  have "shape 3 (length p) (fold (G1_add p i r) [0..<length p] G) \<and>
         fold (G1_add p i r) [0..<length p] G ! i' ! k'
           = G ! i' ! k' + (\<Sum>k\<leftarrow>[0..<length p].
               if k' = k then if i' = i then G1f r (fst (p ! k)) (snd (p ! k)) else 0 else 0)"
    using assms
      fold_acc [where I = "shape 3 (length p)" and g = "\<lambda>G. G ! i' ! k'" and f = "G1_add p i r"
        and c = "\<lambda>k. if k' = k then if i' = i then G1f r (fst (p ! k)) (snd (p ! k)) else 0 else 0"
        and xs = "[0..<length p]" and s = G]
    by (simp add: G1_add_acc)
  with assms show ?thesis
    by (simp add: sum_list_delta)
qed

lemma G1_step_acc:
  assumes "shape 3 (length p) G" "i' < 3" "k' < length p"
  shows "shape 3 (length p) (G1_step atoms p i j G) \<and>
         G1_step atoms p i j G ! i' ! k'
           = G ! i' ! k' + (if i' = i then G1_term atoms p i k' j else 0)"
  using assms by (auto simp: G1_step_def G1_term_def Let_def G1_params_acc)

lemma G1_row_acc:
  assumes "shape 3 (length p) G" "i' < 3" "k' < length p"
  shows "shape 3 (length p) (fold (G1_step atoms p i) [0..<3] G) \<and>
         fold (G1_step atoms p i) [0..<3] G ! i' ! k'
           = G ! i' ! k' + (if i' = i then \<Sum>j\<leftarrow>[0..<3]. G1_term atoms p i k' j else 0)"
proof -
  have "shape 3 (length p) (fold (G1_step atoms p i) [0..<3] G) \<and>
         fold (G1_step atoms p i) [0..<3] G ! i' ! k'
           = G ! i' ! k' + (\<Sum>j\<leftarrow>[0..<3]. if i' = i then G1_term atoms p i k' j else 0)"
    using assms
      fold_acc [where I = "shape 3 (length p)" and g = "\<lambda>G. G ! i' ! k'" and f = "G1_step atoms p i"
        and c = "\<lambda>j. if i' = i then G1_term atoms p i k' j else 0" and xs = "[0..<3]" and s = G]
    by (simp add: G1_step_acc)
  then show ?thesis
    by (cases "i' = i") simp_all
qed

lemma G1_entry:
  assumes "i < 3" "k < length p"
  shows "shape 3 (length p) (G1 atoms p) \<and>
         G1 atoms p ! i ! k = (\<Sum>j\<leftarrow>[0..<3]. G1_term atoms p i k j)"
proof -
  have "shape 3 (length p) (G1 atoms p) \<and> G1 atoms p ! i ! k = zeros 3 (length p) ! i ! k
          + (\<Sum>i'\<leftarrow>[0..<3]. if i = i' then \<Sum>j\<leftarrow>[0..<3]. G1_term atoms p i' k j else 0)"
    unfolding G1_def using assms
      fold_acc [where I = "shape 3 (length p)" and g = "\<lambda>G. G ! i ! k"
        and f = "\<lambda>i. fold (G1_step atoms p i) [0..<3]"
        and c = "\<lambda>i'. if i = i' then \<Sum>j\<leftarrow>[0..<3]. G1_term atoms p i' k j else 0"
        and xs = "[0..<3]" and s = "zeros 3 (length p)"]
    by (simp add: G1_row_acc shape_zeros)
  with assms show ?thesis
    by (simp add: sum_list_delta zeros_def)
qed




lemma rdist_euclid:
  "rdist atoms i j = (case (atoms ! i, atoms ! j) of ((a, b, c), (x, y, z)) \<Rightarrow>
      sqrt ((a - x)\<^sup>2 + (b - y)\<^sup>2 + (c - z)\<^sup>2))"
  by (cases "atoms ! i"; cases "atoms ! j") (simp add: rdist_def linalg_norm_def power2_eq_square)

lemma theta_values: "cos theta = sqrt 3 / 2" "sin theta = 1 / 2"
  by (simp_all add: theta_def cos_30 sin_30)




section \<open>Shapes of the descriptor matrices\<close>

lemma fold_inv:
  assumes "\<And>x s. x \<in> set xs \<Longrightarrow> I s \<Longrightarrow> I (f x s)" and "I s"
  shows "I (fold f xs s)"
  using assms by (induction xs arbitrary: s) simp_all

lemma shape_map_length: "shape m n G \<longleftrightarrow> map length G = replicate m n"
proof
  assume "shape m n G"
  then show "map length G = replicate m n"
    by (auto simp: shape_def map_replicate_const [symmetric] cong: map_cong)
next
  assume h: "map length G = replicate m n"
  then have "length (map length G) = m" and "set (map length G) \<subseteq> {n}"
    by (auto simp: h)
  then show "shape m n G"
    by (auto simp: shape_def)
qed

lemma shape_set_at: "shape m n G \<Longrightarrow> shape m n (set_at i k v G)"
proof (cases "i < length G")
  case True
  assume "shape m n G"
  with True show ?thesis
    unfolding set_at_def by (intro shape_list_update) (simp_all add: shape_def)
next
  case False
  assume "shape m n G"
  with False show ?thesis
    by (simp add: set_at_def list_update_beyond)
qed

lemma shape_acsf_conf_step:
  "shape m n G \<Longrightarrow> shape m n (acsf_conf_step dists params k G)"
  unfolding acsf_conf_step_def Let_def
  by (rule fold_inv [where I = "shape m n"])
     (simp_all add: acsf_param_step_def split_beta shape_set_at)

lemma shape_acsf_fill: "shape (length dists) (1 + length params) (acsf_fill dists params)"
  unfolding acsf_fill_def Let_def
  by (rule fold_inv [where I = "shape (length dists) (1 + length params)"])
     (simp_all add: shape_acsf_conf_step shape_zeros)

lemma shape_G1_step: "shape 3 (length p) G \<Longrightarrow> shape 3 (length p) (G1_step atoms p i j G)"
  unfolding G1_step_def Let_def
  by (auto intro!: fold_inv [where I = "shape 3 (length p)"] simp: G1_add_def split_beta shape_add_at)

lemma shape_G1: "shape 3 (length p) (G1 atoms p)"
  unfolding G1_def
  by (intro fold_inv [where I = "shape 3 (length p)"]) (simp_all add: shape_G1_step shape_zeros)

text \<open>
  Claim C7. The dimer notebook's matrix \<open>acsf\<close> has one row per configuration
  (\<open>nConfs = dists.shape[0]\<close> rows) and every row has \<open>1 + len(params)\<close> entries; the trimer
  notebook's matrix \<open>G1\<close> has three rows, one per atom, and every row has one entry per
  parameter pair of \<open>p\<close>.
\<close>

theorem descriptor_shapes:
  "length (acsf_fill dists params) = length dists
   \<and> map length (acsf_fill dists params) = replicate (length dists) (1 + length params)
   \<and> length (G1 atoms p) = 3
   \<and> map length (G1 atoms p) = replicate 3 (length p)"
  using shape_acsf_fill [of dists params] shape_G1 [of p atoms]
  by (simp add: shape_map_length [symmetric]) (simp add: shape_def)

section \<open>The cutoff functions\<close>

lemma fcut_zero_iff: "fcut r = 0 \<longleftrightarrow> (\<exists>n::int. r = (2 * of_int n + 1) * Rcut)"
proof -
  have "fcut r = 0 \<longleftrightarrow> cos (pi * r / Rcut + pi) = 1"
    by (simp add: fcut_def) linarith
  also have "\<dots> \<longleftrightarrow> (\<exists>n::int. pi * r / Rcut + pi = of_int n * 2 * pi)"
    by (rule cos_one_2pi_int)
  also have "\<dots> \<longleftrightarrow> (\<exists>n::int. r = (2 * of_int n + 1) * Rcut)"
  proof
    assume "\<exists>n::int. pi * r / Rcut + pi = of_int n * 2 * pi"
    then obtain n :: int where "pi * r / Rcut + pi = of_int n * 2 * pi" ..
    then have "pi * (r / Rcut + 1) = pi * (2 * of_int n)"
      by (simp add: algebra_simps)
    then have "r / Rcut + 1 = 2 * of_int n"
      by simp
    then have "r = (2 * of_int (n - 1) + 1) * Rcut"
      by (simp add: Rcut_def field_simps)
    then show "\<exists>n::int. r = (2 * of_int n + 1) * Rcut" ..
  next
    assume "\<exists>n::int. r = (2 * of_int n + 1) * Rcut"
    then obtain n :: int where "r = (2 * of_int n + 1) * Rcut" ..
    then have "pi * r / Rcut + pi = of_int (n + 1) * 2 * pi"
      by (simp add: Rcut_def algebra_simps)
    then show "\<exists>n::int. pi * r / Rcut + pi = of_int n * 2 * pi" ..
  qed
  finally show ?thesis .
qed

text \<open>
  Claim C2: both functions named \<open>fcut\<close> return exactly zero for every \<open>r > Rcut\<close>. The
  dimer notebook's \<open>fcut\<close> does (\<open>fcut_beyond_cutoff\<close> below). The trimer notebook's
  \<open>fcut\<close> lacks the guard \<open>if r >= Rcut: return 0\<close>: at \<open>r = 10 = 2 * Rcut\<close> it returns 1.
\<close>

theorem fcut_trimer_not_zero: "Rcut < 10 \<and> fcut 10 = 1 \<and> fcut 10 \<noteq> 0"
  by (simp add: fcut_def fcut_dimer_def Rcut_def)

text \<open>Beyond \<open>Rcut\<close> the dimer notebook's \<open>fcut\<close> is zero, and the trimer notebook's is zero
  exactly at the odd multiples of \<open>Rcut\<close>.\<close>

lemma fcut_beyond_cutoff:
  assumes "r > Rcut"
  shows "fcut_dimer r = 0 \<and> (fcut r = 0 \<longleftrightarrow> (\<exists>n::int. r = (2 * of_int n + 1) * Rcut))"
  using assms fcut_zero_iff by (simp add: fcut_dimer_def)


section \<open>The G4 loop and the cutoff\<close>

lemma zeros_3: "zeros 3 n = [replicate n 0, replicate n 0, replicate n 0]"
  by (simp add: zeros_def numeral_3_eq_3)

lemma linalg_norm_x: "linalg_norm (x, 0, 0) = \<bar>x\<bar>"
  by (simp add: linalg_norm_def)

lemma fcut_values: "fcut (5 / 2) = 1 / 2" "fcut (15 / 2) = 1 / 2" "fcut 10 = 1"
proof -
  show "fcut (5 / 2) = 1 / 2" "fcut 10 = 1"
    by (simp_all add: fcut_def Rcut_def)
  have "cos (pi * (15 / 2) / 5) = 0"
    using cos_3over2_pi by simp
  then show "fcut (15 / 2) = 1 / 2"
    by (simp add: fcut_def Rcut_def)
qed

lemma rdist_far:
  "rdist [(0, 0, 0), (5 / 2, 0, 0), (10, 0, 0)] 0 (Suc 0) = 5 / 2"
  "rdist [(0, 0, 0), (5 / 2, 0, 0), (10, 0, 0)] 0 2 = 10"
  "rdist [(0, 0, 0), (5 / 2, 0, 0), (10, 0, 0)] (Suc 0) 0 = 5 / 2"
  "rdist [(0, 0, 0), (5 / 2, 0, 0), (10, 0, 0)] (Suc 0) 2 = 15 / 2"
  "rdist [(0, 0, 0), (5 / 2, 0, 0), (10, 0, 0)] 2 0 = 10"
  "rdist [(0, 0, 0), (5 / 2, 0, 0), (10, 0, 0)] 2 (Suc 0) = 15 / 2"
  by (simp_all add: rdist_def linalg_norm_x)

text \<open>The part of the cutoff the loops do apply: an atom \<open>j\<close> farther than \<open>Rcut\<close> from the
  central atom adds nothing to G0 and G1, and a triplet whose \<open>rij\<close> exceeds \<open>Rcut\<close> adds
  nothing to G4.\<close>

lemma cutoff_on_rij:
  assumes "rdist atoms i j > Rcut"
  shows "G0_term atoms i j = 0" and "G1_term atoms p i k j = 0" and "G4_term atoms q i m j k' = 0"
  using assms by (simp_all add: G0_term_def G1_term_def G4_term_def)

text \<open>
  Claim C1 says that a triplet with any pairwise distance above \<open>Rcut\<close> adds nothing to G4.
  The G4 loop tests \<open>rij\<close> only. For atoms on a line at 0, 5/2 and 10, every triplet centred
  at atom 0 has a distance above \<open>Rcut = 5\<close> (\<open>r02 = 10\<close>, \<open>r12 = 15/2\<close>), and the loop still
  adds the triplet \<open>j = 1\<close>, \<open>k = 2\<close> to \<open>G4[0,0]\<close>, which ends positive.
\<close>

theorem G4_far_atom_contributes:
  "rdist [(0, 0, 0), (5 / 2, 0, 0), (10, 0, 0)] 0 2 > Rcut
   \<and> rdist [(0, 0, 0), (5 / 2, 0, 0), (10, 0, 0)] (Suc 0) 2 > Rcut
   \<and> G4 [(0, 0, 0), (5 / 2, 0, 0), (10, 0, 0)] [(2 / 5, 1, 1)] = Inr [[exp (- 65) / 2], [0], [0]]
   \<and> (0::real) < exp (- 65) / 2"
  by (simp add: G4_def upt_3 G4_j_step_def G4_k_step_def rdist_far Rcut_def np_divide_def
        bind_err_def G4_add_def G4f_def math_pow_def fcut_values add_at_def zeros_3 Let_def)


section \<open>When the G4 evaluation returns\<close>

lemma fold_err_pure:
  assumes "\<And>x s. x \<in> set xs \<Longrightarrow> f x s = Inr (h x s)"
  shows "fold_err f xs s = Inr (fold h xs s)"
  using assms by (induction xs arbitrary: s) simp_all

lemma fold_err_bad:
  assumes "x \<in> set xs" and "\<And>s. \<exists>e. f x s = Inl e"
  shows "\<exists>e. fold_err f xs s = Inl e"
  using assms
proof (induction xs arbitrary: s)
  case Nil
  then show ?case by simp
next
  case (Cons y ys)
  show ?case
  proof (cases "f y s")
    case (Inl e)
    then show ?thesis by simp
  next
    case (Inr s')
    with Cons.prems(2) [of s] have "x \<noteq> y" by auto
    with Cons.prems have "x \<in> set ys" by simp
    then have "\<exists>e. fold_err f ys s' = Inl e"
      using Cons.prems(2) by (rule Cons.IH)
    with Inr show ?thesis by simp
  qed
qed

lemma G4f_cases:
  "G4f cost rij rik rjk eta zeta lamb =
     (if 1 + lamb * cost = 0 \<and> zeta < 0 then Inl ValueError
      else Inr (2 powi (1 - zeta) * (1 + lamb * cost) powi zeta
                 * exp (- eta * (rij * rij + rik * rik + rjk * rjk))
                 * fcut rij * fcut rjk * fcut rik))"
  by (simp add: G4f_def math_pow_def bind_err_def Let_def)

lemma G4_add_cases:
  "G4_add p i (cos_angle atoms i j k) (rdist atoms i j) (rdist atoms i k) (rdist atoms j k) m G =
     (if pow_ok atoms p i j k m then Inr (add_at i m (G4_val atoms p i j k m) G)
      else Inl ValueError)"
  by (simp add: G4_add_def G4f_cases pow_ok_def G4_val_def bind_err_def split: prod.splits)

lemma G4_k_step_ok:
  assumes "k_ok atoms p i j k"
  shows "G4_k_step atoms p i j (rdist atoms i j) k G = Inr (G4_k_pure atoms p i j k G)"
proof (cases "k = i \<or> k = j")
  case True
  then show ?thesis by (auto simp: G4_k_step_def G4_k_pure_def)
next
  case False
  with assms have d: "rdist atoms i j * rdist atoms i k \<noteq> 0"
    and pw: "\<And>m. m < length p \<Longrightarrow> pow_ok atoms p i j k m"
    by (auto simp: k_ok_def)
  have "fold_err (G4_add p i (cos_angle atoms i j k) (rdist atoms i j) (rdist atoms i k)
            (rdist atoms j k)) [0..<length p] G
        = Inr (fold (\<lambda>m. add_at i m (G4_val atoms p i j k m)) [0..<length p] G)"
    by (rule fold_err_pure) (simp add: G4_add_cases pw)
  with False d show ?thesis
    by (simp add: G4_k_step_def G4_k_pure_def Let_def np_divide_def bind_err_def cos_angle_def)
qed

lemma G4_k_step_bad:
  assumes "\<not> k_ok atoms p i j k"
  shows "\<exists>e. G4_k_step atoms p i j (rdist atoms i j) k G = Inl e"
proof -
  from assms have ne: "k \<noteq> i" "k \<noteq> j" by (auto simp: k_ok_def)
  show ?thesis
  proof (cases "rdist atoms i j * rdist atoms i k = 0")
    case True
    with ne show ?thesis
      by (simp add: G4_k_step_def Let_def np_divide_def bind_err_def)
  next
    case False
    with assms obtain m where m: "m < length p" "\<not> pow_ok atoms p i j k m"
      by (auto simp: k_ok_def)
    have "\<exists>e. fold_err (G4_add p i (cos_angle atoms i j k) (rdist atoms i j) (rdist atoms i k)
            (rdist atoms j k)) [0..<length p] G = Inl e"
      using m by (intro fold_err_bad [where x = m]) (simp_all add: G4_add_cases)
    with False ne show ?thesis
      by (simp add: G4_k_step_def Let_def np_divide_def bind_err_def cos_angle_def)
  qed
qed

lemma G4_j_step_ok:
  assumes "j_ok atoms p i j"
  shows "G4_j_step atoms p i j G = Inr (G4_j_pure atoms p i j G)"
proof (cases "i = j \<or> rdist atoms i j > Rcut")
  case True
  then show ?thesis by (auto simp: G4_j_step_def G4_j_pure_def Let_def)
next
  case False
  with assms have "\<And>k. k < 3 \<Longrightarrow> k_ok atoms p i j k"
    by (auto simp: j_ok_def)
  then have "fold_err (G4_k_step atoms p i j (rdist atoms i j)) [0..<3] G
        = Inr (fold (G4_k_pure atoms p i j) [0..<3] G)"
    by (intro fold_err_pure) (simp add: G4_k_step_ok)
  with False show ?thesis
    by (simp add: G4_j_step_def G4_j_pure_def Let_def)
qed

lemma G4_j_step_bad:
  assumes "\<not> j_ok atoms p i j"
  shows "\<exists>e. G4_j_step atoms p i j G = Inl e"
proof -
  from assms obtain k where k: "i \<noteq> j" "\<not> rdist atoms i j > Rcut" "k < 3" "\<not> k_ok atoms p i j k"
    by (auto simp: j_ok_def)
  have "\<exists>e. fold_err (G4_k_step atoms p i j (rdist atoms i j)) [0..<3] G = Inl e"
    using k by (intro fold_err_bad [where x = k]) (simp_all add: G4_k_step_bad)
  with k show ?thesis
    by (simp add: G4_j_step_def Let_def)
qed

lemma G4_succeeds:
  assumes "G4_ok atoms p"
  shows "G4 atoms p = Inr (G4_pure atoms p)"
  unfolding G4_def G4_pure_def using assms
  by (intro fold_err_pure) (simp add: G4_ok_def G4_j_step_ok)

lemma G4_fails:
  assumes "\<not> G4_ok atoms p"
  shows "\<exists>e. G4 atoms p = Inl e"
proof -
  from assms obtain i j where ij: "i < 3" "j < 3" "\<not> j_ok atoms p i j"
    by (auto simp: G4_ok_def)
  have "\<And>G. \<exists>e. fold_err (G4_j_step atoms p i) [0..<3] G = Inl e"
    using ij by (intro fold_err_bad [where x = j]) (simp_all add: G4_j_step_bad)
  then show ?thesis
    unfolding G4_def using ij
    by (intro fold_err_bad [where x = i and f = "\<lambda>i. fold_err (G4_j_step atoms p i) [0..<3]"])
       simp_all
qed


lemma G4_m_acc:
  assumes "shape 3 (length p) G" "i' < 3" "m' < length p"
  shows "shape 3 (length p) (fold (\<lambda>m. add_at i m (v m)) [0..<length p] G) \<and>
         fold (\<lambda>m. add_at i m (v m)) [0..<length p] G ! i' ! m'
           = G ! i' ! m' + (if i' = i then v m' else 0)"
proof -
  have "shape 3 (length p) (fold (\<lambda>m. add_at i m (v m)) [0..<length p] G) \<and>
         fold (\<lambda>m. add_at i m (v m)) [0..<length p] G ! i' ! m'
           = G ! i' ! m' + (\<Sum>m\<leftarrow>[0..<length p]. if m' = m then if i' = i then v m else 0 else 0)"
    using assms
      fold_acc [where I = "shape 3 (length p)" and g = "\<lambda>G. G ! i' ! m'"
        and f = "\<lambda>m. add_at i m (v m)"
        and c = "\<lambda>m. if m' = m then if i' = i then v m else 0 else 0"
        and xs = "[0..<length p]" and s = G]
    by (simp add: shape_add_at nth_add_at)
  with assms show ?thesis
    by (simp add: sum_list_delta)
qed

lemma G4_k_pure_acc:
  assumes "shape 3 (length p) G" "i' < 3" "m' < length p"
  shows "shape 3 (length p) (G4_k_pure atoms p i j k G) \<and>
         G4_k_pure atoms p i j k G ! i' ! m'
           = G ! i' ! m' + (if i' = i then if k \<noteq> i \<and> k \<noteq> j then G4_val atoms p i j k m' else 0 else 0)"
  using assms by (auto simp: G4_k_pure_def G4_m_acc)

lemma G4_j_pure_acc:
  assumes "shape 3 (length p) G" "i' < 3" "m' < length p"
  shows "shape 3 (length p) (G4_j_pure atoms p i j G) \<and>
         G4_j_pure atoms p i j G ! i' ! m'
           = G ! i' ! m' + (if i' = i then \<Sum>k\<leftarrow>[0..<3]. G4_term atoms p i m' j k else 0)"
proof (cases "i = j \<or> rdist atoms i j > Rcut")
  case True
  then have "(\<Sum>k\<leftarrow>[0..<3]. G4_term atoms p i m' j k) = 0"
    by (auto simp: G4_term_def upt_3)
  with True assms show ?thesis
    by (simp add: G4_j_pure_def)
next
  case False
  have "shape 3 (length p) (fold (G4_k_pure atoms p i j) [0..<3] G) \<and>
         fold (G4_k_pure atoms p i j) [0..<3] G ! i' ! m'
           = G ! i' ! m' + (\<Sum>k\<leftarrow>[0..<3]. if i' = i then if k \<noteq> i \<and> k \<noteq> j then G4_val atoms p i j k m' else 0 else 0)"
    using assms
      fold_acc [where I = "shape 3 (length p)" and g = "\<lambda>G. G ! i' ! m'"
        and f = "G4_k_pure atoms p i j"
        and c = "\<lambda>k. if i' = i then if k \<noteq> i \<and> k \<noteq> j then G4_val atoms p i j k m' else 0 else 0"
        and xs = "[0..<3]" and s = G]
    by (simp add: G4_k_pure_acc)
  with False show ?thesis
    by (cases "i' = i") (simp_all add: G4_j_pure_def G4_term_def cong del: if_weak_cong)
qed

lemma G4_row_acc:
  assumes "shape 3 (length p) G" "i' < 3" "m' < length p"
  shows "shape 3 (length p) (fold (G4_j_pure atoms p i) [0..<3] G) \<and>
         fold (G4_j_pure atoms p i) [0..<3] G ! i' ! m'
           = G ! i' ! m' + (if i' = i then \<Sum>j\<leftarrow>[0..<3]. \<Sum>k\<leftarrow>[0..<3]. G4_term atoms p i m' j k else 0)"
proof -
  have "shape 3 (length p) (fold (G4_j_pure atoms p i) [0..<3] G) \<and>
         fold (G4_j_pure atoms p i) [0..<3] G ! i' ! m'
           = G ! i' ! m' + (\<Sum>j\<leftarrow>[0..<3]. if i' = i then \<Sum>k\<leftarrow>[0..<3]. G4_term atoms p i m' j k else 0)"
    using assms
      fold_acc [where I = "shape 3 (length p)" and g = "\<lambda>G. G ! i' ! m'"
        and f = "G4_j_pure atoms p i"
        and c = "\<lambda>j. if i' = i then \<Sum>k\<leftarrow>[0..<3]. G4_term atoms p i m' j k else 0"
        and xs = "[0..<3]" and s = G]
    by (simp add: G4_j_pure_acc)
  then show ?thesis
    by (cases "i' = i") simp_all
qed

lemma G4_pure_entry:
  assumes "i < 3" "m < length p"
  shows "G4_pure atoms p ! i ! m = (\<Sum>j\<leftarrow>[0..<3]. \<Sum>k\<leftarrow>[0..<3]. G4_term atoms p i m j k)"
proof -
  have "shape 3 (length p) (G4_pure atoms p) \<and> G4_pure atoms p ! i ! m = zeros 3 (length p) ! i ! m
          + (\<Sum>i'\<leftarrow>[0..<3]. if i = i' then \<Sum>j\<leftarrow>[0..<3]. \<Sum>k\<leftarrow>[0..<3]. G4_term atoms p i' m j k else 0)"
    unfolding G4_pure_def using assms
      fold_acc [where I = "shape 3 (length p)" and g = "\<lambda>G. G ! i ! m"
        and f = "\<lambda>i. fold (G4_j_pure atoms p i) [0..<3]"
        and c = "\<lambda>i'. if i = i' then \<Sum>j\<leftarrow>[0..<3]. \<Sum>k\<leftarrow>[0..<3]. G4_term atoms p i' m j k else 0"
        and xs = "[0..<3]" and s = "zeros 3 (length p)"]
    by (simp add: G4_row_acc shape_zeros)
  with assms show ?thesis
    by (simp add: sum_list_delta zeros_def)
qed

lemma shape_G4_k_pure: "shape 3 (length p) G \<Longrightarrow> shape 3 (length p) (G4_k_pure atoms p i j k G)"
  unfolding G4_k_pure_def
  by (auto intro!: fold_inv [where I = "shape 3 (length p)"] simp: shape_add_at)

lemma shape_G4_j_pure: "shape 3 (length p) G \<Longrightarrow> shape 3 (length p) (G4_j_pure atoms p i j G)"
  unfolding G4_j_pure_def
  by (auto intro!: fold_inv [where I = "shape 3 (length p)"] simp: shape_G4_k_pure)

lemma shape_G4_pure: "shape 3 (length p) (G4_pure atoms p)"
  unfolding G4_pure_def
  by (intro fold_inv [where I = "shape 3 (length p)"]) (simp_all add: shape_G4_j_pure shape_zeros)


section \<open>Reordering the atoms\<close>

lemma perm3_image: "perm3 \<pi> \<Longrightarrow> \<pi> ` {..<3} = {..<3}"
  by (simp add: perm3_def endo_inj_surj)

lemma perm3_bij: "perm3 \<pi> \<Longrightarrow> bij_betw \<pi> {..<3} {..<3}"
  by (simp add: bij_betw_def perm3_image) (simp add: perm3_def)

lemma perm3_lt: "perm3 \<pi> \<Longrightarrow> x < 3 \<Longrightarrow> \<pi> x < 3"
  by (auto simp: perm3_def)

lemma perm3_eq: "perm3 \<pi> \<Longrightarrow> x < 3 \<Longrightarrow> y < 3 \<Longrightarrow> \<pi> x = \<pi> y \<longleftrightarrow> x = y"
  by (auto simp: perm3_def inj_on_def)

lemma all_perm3:
  assumes "perm3 \<pi>"
  shows "(\<forall>k<3. P (\<pi> k)) \<longleftrightarrow> (\<forall>k<3. P k)"
proof -
  have "(\<forall>k<3. P (\<pi> k)) \<longleftrightarrow> (\<forall>y\<in>\<pi> ` {..<3}. P y)"
    by auto
  also have "\<dots> \<longleftrightarrow> (\<forall>k<3. P k)"
    using assms by (auto simp: perm3_image)
  finally show ?thesis .
qed

text \<open>For an array of three rows, \<open>permuted \<pi>\<close> is the same rows in another order.\<close>

lemma permuted_is_reordering:
  assumes "length atoms = 3" and "perm3 \<pi>"
  shows "mset (permuted \<pi> atoms) = mset atoms"
proof -
  have "mset (permuted \<pi> atoms) = image_mset (\<lambda>x. atoms ! x) (image_mset \<pi> (mset [0..<3]))"
    by (simp add: permuted_def multiset.map_comp comp_def)
  also have "image_mset \<pi> (mset [0..<3]) = mset [0..<3]"
  proof -
    have "image_mset \<pi> (mset_set {..<3}) = mset_set (\<pi> ` {..<3})"
      using assms(2) by (intro image_mset_mset_set) (simp add: perm3_def)
    then show ?thesis
      using assms(2) by (simp add: perm3_image atLeast0LessThan)
  qed
  also have "image_mset (\<lambda>x. atoms ! x) (mset [0..<3]) = mset (map (\<lambda>x. atoms ! x) [0..<length atoms])"
    using assms(1) by simp
  also have "\<dots> = mset atoms"
    by (simp only: map_nth)
  finally show ?thesis .
qed

lemma sum_list_upt_3: "(\<Sum>x\<leftarrow>[0..<3]. f x) = sum f {..<3}"
  by (simp add: interv_sum_list_conv_sum_set_nat atLeast0LessThan)

lemma sum_perm3: "perm3 \<pi> \<Longrightarrow> (\<Sum>x\<leftarrow>[0..<3]. f (\<pi> x)) = (\<Sum>x\<leftarrow>[0..<3]. (f x :: real))"
  unfolding sum_list_upt_3 by (rule sum.reindex_bij_betw) (rule perm3_bij)

lemma nth_permuted: "x < 3 \<Longrightarrow> permuted \<pi> atoms ! x = atoms ! \<pi> x"
  by (simp add: permuted_def)

lemma rdist_permuted:
  "x < 3 \<Longrightarrow> y < 3 \<Longrightarrow> rdist (permuted \<pi> atoms) x y = rdist atoms (\<pi> x) (\<pi> y)"
  by (simp add: rdist_def nth_permuted)

lemma cos_angle_permuted:
  "x < 3 \<Longrightarrow> y < 3 \<Longrightarrow> z < 3 \<Longrightarrow>
     cos_angle (permuted \<pi> atoms) x y z = cos_angle atoms (\<pi> x) (\<pi> y) (\<pi> z)"
  by (simp add: cos_angle_def rdist_permuted nth_permuted)

lemma G0_term_permuted:
  "perm3 \<pi> \<Longrightarrow> i < 3 \<Longrightarrow> j < 3 \<Longrightarrow> G0_term (permuted \<pi> atoms) i j = G0_term atoms (\<pi> i) (\<pi> j)"
  by (simp add: G0_term_def rdist_permuted perm3_eq)

lemma G1_term_permuted:
  "perm3 \<pi> \<Longrightarrow> i < 3 \<Longrightarrow> j < 3 \<Longrightarrow>
     G1_term (permuted \<pi> atoms) p i k j = G1_term atoms p (\<pi> i) k (\<pi> j)"
  by (simp add: G1_term_def rdist_permuted perm3_eq)

lemma G4_val_permuted:
  "i < 3 \<Longrightarrow> j < 3 \<Longrightarrow> k < 3 \<Longrightarrow>
     G4_val (permuted \<pi> atoms) p i j k m = G4_val atoms p (\<pi> i) (\<pi> j) (\<pi> k) m"
  by (simp add: G4_val_def rdist_permuted cos_angle_permuted)

lemma G4_term_permuted:
  "perm3 \<pi> \<Longrightarrow> i < 3 \<Longrightarrow> j < 3 \<Longrightarrow> k < 3 \<Longrightarrow>
     G4_term (permuted \<pi> atoms) p i m j k = G4_term atoms p (\<pi> i) m (\<pi> j) (\<pi> k)"
  by (simp add: G4_term_def rdist_permuted perm3_eq G4_val_permuted)

lemma sum_list_cong_3:
  "(\<And>x. x < 3 \<Longrightarrow> f x = (g x :: real)) \<Longrightarrow> (\<Sum>x\<leftarrow>[0..<3]. f x) = (\<Sum>x\<leftarrow>[0..<3]. g x)"
  by (simp add: upt_3)

lemma G0_permuted:
  assumes "perm3 \<pi>" "i < 3"
  shows "G0 (permuted \<pi> atoms) ! i = G0 atoms ! \<pi> i"
proof -
  have "G0 (permuted \<pi> atoms) ! i = (\<Sum>j\<leftarrow>[0..<3]. G0_term atoms (\<pi> i) (\<pi> j))"
    using assms by (simp add: G0_entry G0_term_permuted cong: sum_list_cong_3)
  also have "\<dots> = (\<Sum>j\<leftarrow>[0..<3]. G0_term atoms (\<pi> i) j)"
    using assms(1) by (rule sum_perm3)
  finally show ?thesis
    using assms by (simp add: G0_entry perm3_lt)
qed

lemma G1_permuted:
  assumes "perm3 \<pi>" "i < 3" "k < length p"
  shows "G1 (permuted \<pi> atoms) p ! i ! k = G1 atoms p ! \<pi> i ! k"
proof -
  have "G1 (permuted \<pi> atoms) p ! i ! k = (\<Sum>j\<leftarrow>[0..<3]. G1_term atoms p (\<pi> i) k (\<pi> j))"
    using assms by (simp add: G1_entry G1_term_permuted cong: sum_list_cong_3)
  also have "\<dots> = (\<Sum>j\<leftarrow>[0..<3]. G1_term atoms p (\<pi> i) k j)"
    using assms(1) by (rule sum_perm3)
  finally show ?thesis
    using assms by (simp add: G1_entry perm3_lt)
qed

lemma G4_pure_permuted:
  assumes "perm3 \<pi>" "i < 3" "m < length p"
  shows "G4_pure (permuted \<pi> atoms) p ! i ! m = G4_pure atoms p ! \<pi> i ! m"
proof -
  have "G4_pure (permuted \<pi> atoms) p ! i ! m
          = (\<Sum>j\<leftarrow>[0..<3]. \<Sum>k\<leftarrow>[0..<3]. G4_term atoms p (\<pi> i) m (\<pi> j) (\<pi> k))"
    using assms by (simp add: G4_pure_entry G4_term_permuted cong: sum_list_cong_3)
  also have "\<dots> = (\<Sum>j\<leftarrow>[0..<3]. \<Sum>k\<leftarrow>[0..<3]. G4_term atoms p (\<pi> i) m (\<pi> j) k)"
    using assms by (simp add: sum_perm3 [where f = "\<lambda>k. G4_term atoms p (\<pi> i) m (\<pi> j) k" for j])
  also have "\<dots> = (\<Sum>j\<leftarrow>[0..<3]. \<Sum>k\<leftarrow>[0..<3]. G4_term atoms p (\<pi> i) m j k)"
    using assms(1) by (rule sum_perm3 [where f = "\<lambda>j. \<Sum>k\<leftarrow>[0..<3]. G4_term atoms p (\<pi> i) m j k"])
  finally show ?thesis
    using assms by (simp add: G4_pure_entry perm3_lt)
qed

lemma k_ok_permuted:
  assumes "perm3 \<pi>" "i < 3" "j < 3" "k < 3"
  shows "k_ok (permuted \<pi> atoms) p i j k \<longleftrightarrow> k_ok atoms p (\<pi> i) (\<pi> j) (\<pi> k)"
  using assms by (simp add: k_ok_def pow_ok_def rdist_permuted cos_angle_permuted perm3_eq)

lemma j_ok_permuted:
  assumes "perm3 \<pi>" "i < 3" "j < 3"
  shows "j_ok (permuted \<pi> atoms) p i j \<longleftrightarrow> j_ok atoms p (\<pi> i) (\<pi> j)"
proof -
  have "(\<forall>k<3. k_ok (permuted \<pi> atoms) p i j k) \<longleftrightarrow> (\<forall>k<3. k_ok atoms p (\<pi> i) (\<pi> j) (\<pi> k))"
    using assms by (simp add: k_ok_permuted)
  also have "\<dots> \<longleftrightarrow> (\<forall>k<3. k_ok atoms p (\<pi> i) (\<pi> j) k)"
    using assms(1) by (rule all_perm3)
  finally show ?thesis
    using assms by (simp add: j_ok_def rdist_permuted perm3_eq)
qed

lemma G4_ok_permuted:
  assumes "perm3 \<pi>"
  shows "G4_ok (permuted \<pi> atoms) p \<longleftrightarrow> G4_ok atoms p"
proof -
  have "G4_ok (permuted \<pi> atoms) p \<longleftrightarrow> (\<forall>i<3. \<forall>j<3. j_ok atoms p (\<pi> i) (\<pi> j))"
    using assms by (simp add: G4_ok_def j_ok_permuted)
  also have "\<dots> \<longleftrightarrow> (\<forall>i<3. \<forall>j<3. j_ok atoms p (\<pi> i) j)"
    using assms by (simp add: all_perm3 [where P = "\<lambda>j. j_ok atoms p (\<pi> i) j" for i])
  also have "\<dots> \<longleftrightarrow> (\<forall>i<3. \<forall>j<3. j_ok atoms p i j)"
    using assms by (rule all_perm3 [where P = "\<lambda>i. \<forall>j<3. j_ok atoms p i j"])
  finally show ?thesis
    by (simp add: G4_ok_def)
qed


section \<open>Distinct positions and the central atom\<close>

lemma linalg_norm_zero_iff: "linalg_norm v = 0 \<longleftrightarrow> v = (0, 0, 0)"
proof (cases v)
  case (fields a b c)
  have "a * a + b * b + c * c = 0 \<longleftrightarrow> a = 0 \<and> b = 0 \<and> c = 0"
    using sum_power2_eq_zero_iff [of a b] sum_power2_ge_zero [of a b]
    by (auto simp: power2_eq_square add_nonneg_eq_0_iff)
  with fields show ?thesis
    by (simp add: linalg_norm_def)
qed

lemma rdist_zero_iff: "rdist atoms i j = 0 \<longleftrightarrow> atoms ! i = atoms ! j"
  by (cases "atoms ! i"; cases "atoms ! j") (simp add: rdist_def linalg_norm_zero_iff)

lemma rdist_distinct:
  assumes "distinct atoms" "i < length atoms" "j < length atoms" "i \<noteq> j"
  shows "rdist atoms i j \<noteq> 0"
  using assms by (simp add: rdist_zero_iff nth_eq_iff_index_eq)

lemma G4_ok_distinct:
  assumes "length atoms = 3" and "distinct atoms" and "\<forall>(eta, zeta, lamb)\<in>set q. 0 \<le> zeta"
  shows "G4_ok atoms q"
proof -
  have pw: "pow_ok atoms q i j k m" if "m < length q" for i j k m
  proof -
    from that have "q ! m \<in> set q" by simp
    with assms(3) show ?thesis
      by (auto simp: pow_ok_def split: prod.splits)
  qed
  have "k_ok atoms q i j k" if "i < 3" "j < 3" "k < 3" "i \<noteq> j" for i j k
  proof (cases "k = i \<or> k = j")
    case True
    then show ?thesis by (auto simp: k_ok_def)
  next
    case False
    with that assms(1,2) have "rdist atoms i j \<noteq> 0" "rdist atoms i k \<noteq> 0"
      by (simp_all add: rdist_distinct)
    with pw show ?thesis
      by (simp add: k_ok_def)
  qed
  then show ?thesis
    by (auto simp: G4_ok_def j_ok_def)
qed

lemma distinct_atoms_trimer: "length atoms_trimer = 3 \<and> distinct atoms_trimer"
  by (simp add: atoms_trimer_def theta_values)

lemma p_G4_zeta: "\<forall>(eta, zeta, lamb)\<in>set p_G4. 0 \<le> zeta"
  by (simp add: p_G4_def)

lemma lessThan_3: "{..<3::nat} = {0, 1, 2}"
  by auto

text \<open>
  Claim C5. For every central atom \<open>i\<close> and every permutation \<open>\<pi>\<close> of the row indices that
  keeps \<open>i\<close> in place, reordering the rows of the coordinate array by \<open>\<pi>\<close> (the other two
  atoms exchanged, or nothing moved; \<open>permuted_is_reordering\<close>) leaves \<open>G0[i]\<close>,
  the row \<open>G1[i]\<close> (every parameter pair) and the row \<open>G4[i]\<close> (every parameter triple)
  unchanged: when the G4 evaluation of the original array returns, so does the one of the
  reordered array, with the same row \<open>i\<close>; and when it fails, both fail.
\<close>

theorem symmetry_functions_permutation_invariant:
  assumes "i < 3" and "inj_on \<pi> {..<3}" and "\<pi> ` {..<3} \<subseteq> {..<3}" and "\<pi> i = i"
  shows "G0 (permuted \<pi> atoms) ! i = G0 atoms ! i
       \<and> G1 (permuted \<pi> atoms) p ! i = G1 atoms p ! i
       \<and> (\<forall>M. G4 atoms q = Inr M \<longrightarrow> (\<exists>M'. G4 (permuted \<pi> atoms) q = Inr M' \<and> M' ! i = M ! i))
       \<and> (\<forall>e. G4 atoms q = Inl e \<longrightarrow> (\<exists>e'. G4 (permuted \<pi> atoms) q = Inl e'))"
proof -
  from assms have perm: "perm3 \<pi>"
    by (simp add: perm3_def)
  have g0: "G0 (permuted \<pi> atoms) ! i = G0 atoms ! i"
    using G0_permuted [OF perm assms(1), of atoms] assms(4) by simp
  have g1: "G1 (permuted \<pi> atoms) p ! i = G1 atoms p ! i"
  proof (rule nth_equalityI)
    show "length (G1 (permuted \<pi> atoms) p ! i) = length (G1 atoms p ! i)"
      using assms(1) by (simp add: shape_nth [OF shape_G1])
  next
    fix k
    assume "k < length (G1 (permuted \<pi> atoms) p ! i)"
    then have "k < length p"
      using assms(1) by (simp add: shape_nth [OF shape_G1])
    then show "G1 (permuted \<pi> atoms) p ! i ! k = G1 atoms p ! i ! k"
      using G1_permuted [OF perm assms(1), of k p atoms] assms(4) by simp
  qed
  have row: "G4_pure (permuted \<pi> atoms) q ! i = G4_pure atoms q ! i"
  proof (rule nth_equalityI)
    show "length (G4_pure (permuted \<pi> atoms) q ! i) = length (G4_pure atoms q ! i)"
      using assms(1) by (simp add: shape_nth [OF shape_G4_pure])
  next
    fix m
    assume "m < length (G4_pure (permuted \<pi> atoms) q ! i)"
    then have "m < length q"
      using assms(1) by (simp add: shape_nth [OF shape_G4_pure])
    then show "G4_pure (permuted \<pi> atoms) q ! i ! m = G4_pure atoms q ! i ! m"
      using G4_pure_permuted [OF perm assms(1), of m q atoms] assms(4) by simp
  qed
  have g4: "\<exists>M'. G4 (permuted \<pi> atoms) q = Inr M' \<and> M' ! i = M ! i" if "G4 atoms q = Inr M" for M
  proof -
    from that have ok: "G4_ok atoms q"
      using G4_fails [of atoms q] by auto
    with that have "M = G4_pure atoms q"
      by (simp add: G4_succeeds)
    moreover from ok perm have "G4 (permuted \<pi> atoms) q = Inr (G4_pure (permuted \<pi> atoms) q)"
      by (simp add: G4_succeeds G4_ok_permuted)
    ultimately show ?thesis
      using row by simp
  qed
  have g4e: "\<exists>e'. G4 (permuted \<pi> atoms) q = Inl e'" if "G4 atoms q = Inl e" for e
  proof -
    from that have "\<not> G4_ok atoms q"
      using G4_succeeds [of atoms q] by auto
    with perm have "\<not> G4_ok (permuted \<pi> atoms) q"
      by (simp add: G4_ok_permuted)
    then show ?thesis
      by (rule G4_fails)
  qed
  from g0 g1 g4 g4e show ?thesis
    by blast
qed

theorem symmetry_functions_permutation_invariant_witness:
  "permuted swap12 atoms_trimer = [atoms_trimer ! 0, atoms_trimer ! 2, atoms_trimer ! 1]
   \<and> G0 (permuted swap12 atoms_trimer) ! 0 = G0 atoms_trimer ! 0
   \<and> G1 (permuted swap12 atoms_trimer) p_G1 ! 0 = G1 atoms_trimer p_G1 ! 0
   \<and> (\<exists>M M'. G4 atoms_trimer p_G4 = Inr M \<and> G4 (permuted swap12 atoms_trimer) p_G4 = Inr M'
         \<and> M' ! 0 = M ! 0)"
proof -
  have h: "(0::nat) < 3" "inj_on swap12 {..<3}" "swap12 ` {..<3} \<subseteq> {..<3}" "swap12 0 = 0"
    by (simp_all add: lessThan_3 swap12_def)
  have "G4 atoms_trimer p_G4 = Inr (G4_pure atoms_trimer p_G4)"
    using distinct_atoms_trimer p_G4_zeta by (intro G4_succeeds G4_ok_distinct) simp_all
  moreover have "permuted swap12 atoms_trimer = [atoms_trimer ! 0, atoms_trimer ! 2, atoms_trimer ! 1]"
    by (simp add: permuted_def upt_3 swap12_def)
  ultimately show ?thesis
    using symmetry_functions_permutation_invariant [OF h, of atoms_trimer p_G1 p_G4]
    by auto
qed

section \<open>Stateless evaluators\<close>

lemma fcut_call_state: "snd (fcut_call r s) = s"
  by (simp add: fcut_call_def)

lemma fcut_call_pure: "Rcut_var s = Rcut \<Longrightarrow> fcut_call r s = (Inr (fcut r), s)"
  by (simp add: fcut_call_def fcut_def np_divide_def bind_err_def Rcut_def)

lemma G1f_call_pure: "Rcut_var s = Rcut \<Longrightarrow> G1f_call x eta Rs s = (Inr (G1f x eta Rs), s)"
  by (simp add: G1f_call_def G1f_def np_divide_def bind_err_def Rcut_def)

lemma G4f_call_pure:
  "Rcut_var s = Rcut \<Longrightarrow> G4f_call cost rij rik rjk eta zeta lamb s = (G4f cost rij rik rjk eta zeta lamb, s)"
  by (simp add: G4f_call_def G4f_def fcut_call_pure bind_err_def Let_def split: sum.splits)

lemma fcut_call_Rcut: "Rcut_var s = Rcut_var s' \<Longrightarrow> fst (fcut_call r s) = fst (fcut_call r s')"
  by (simp add: fcut_call_def)

text \<open>
  Claim C8. A call of \<open>fcut\<close>, \<open>G1f\<close> or \<open>G4f\<close> leaves the notebook's state as it was, and
  its result is the same in any two states that hold the same value of \<open>Rcut\<close>: on the
  same arguments two evaluations return the same value, whatever else the notebook has
  assigned in between.
\<close>

theorem evaluators_pure:
  assumes "Rcut_var s = Rcut_var s'"
  shows "snd (fcut_call r s) = s \<and> fst (fcut_call r s) = fst (fcut_call r s')
       \<and> snd (G1f_call x eta Rs s) = s \<and> fst (G1f_call x eta Rs s) = fst (G1f_call x eta Rs s')
       \<and> snd (G4f_call cost rij rik rjk eta' zeta lamb s) = s
       \<and> fst (G4f_call cost rij rik rjk eta' zeta lamb s)
           = fst (G4f_call cost rij rik rjk eta' zeta lamb s')"
proof -
  have a: "snd (fcut_call r s) = s \<and> fst (fcut_call r s) = fst (fcut_call r s')"
    using assms by (simp add: fcut_call_def)
  have b: "snd (G1f_call x eta Rs s) = s \<and> fst (G1f_call x eta Rs s) = fst (G1f_call x eta Rs s')"
    using assms by (simp add: G1f_call_def)
  have c: "snd (G4f_call cost rij rik rjk eta' zeta lamb s) = s"
    by (simp add: G4f_call_def fcut_call_def split: sum.splits prod.splits)
  have d: "fst (G4f_call cost rij rik rjk eta' zeta lamb s)
           = fst (G4f_call cost rij rik rjk eta' zeta lamb s')"
    using assms by (simp add: G4f_call_def fcut_call_def split: sum.splits prod.splits)
  from a b c d show ?thesis by simp
qed

theorem evaluators_pure_witness:
  "fcut_call 1 (notebook0\<lparr>G0_var := G0 atoms_trimer, p_var := p_G4\<rparr>)
      = (Inr (fcut 1), notebook0\<lparr>G0_var := G0 atoms_trimer, p_var := p_G4\<rparr>)
   \<and> fst (fcut_call 1 (notebook0\<lparr>G0_var := G0 atoms_trimer, p_var := p_G4\<rparr>)) = fst (fcut_call 1 notebook0)
   \<and> fst (G1f_call 1 (2 / 5) (1 / 5) (notebook0\<lparr>G0_var := G0 atoms_trimer, p_var := p_G4\<rparr>))
       = fst (G1f_call 1 (2 / 5) (1 / 5) notebook0)
   \<and> fst (G4f_call 1 1 1 1 (2 / 5) 1 1 (notebook0\<lparr>G0_var := G0 atoms_trimer, p_var := p_G4\<rparr>))
       = fst (G4f_call 1 1 1 1 (2 / 5) 1 1 notebook0)"
proof -
  have h: "Rcut_var (notebook0\<lparr>G0_var := G0 atoms_trimer, p_var := p_G4\<rparr>) = Rcut_var notebook0"
    by simp
  have "Rcut_var (notebook0\<lparr>G0_var := G0 atoms_trimer, p_var := p_G4\<rparr>) = Rcut"
    by (simp add: notebook0_def Rcut_def)
  then have "fcut_call 1 (notebook0\<lparr>G0_var := G0 atoms_trimer, p_var := p_G4\<rparr>)
      = (Inr (fcut 1), notebook0\<lparr>G0_var := G0 atoms_trimer, p_var := p_G4\<rparr>)"
    by (rule fcut_call_pure)
  then show ?thesis
    using evaluators_pure [OF h, where r = 1 and x = 1 and eta = "2 / 5" and Rs = "1 / 5"
        and cost = 1 and rij = 1 and rik = 1 and rjk = 1 and eta' = "2 / 5" and zeta = 1 and lamb = 1]
    by simp
qed


section \<open>Column loops\<close>

lemma fold_row_update:
  "d \<le> length row \<Longrightarrow>
     fold (\<lambda>a r. r[a := f a (r ! a)]) [0..<d] row = map (\<lambda>a. f a (row ! a)) [0..<d] @ drop d row"
proof (induction d)
  case 0
  then show ?case by simp
next
  case (Suc d)
  then have d: "d < length row" by simp
  have "fold (\<lambda>a r. r[a := f a (r ! a)]) [0..<Suc d] row
          = (map (\<lambda>a. f a (row ! a)) [0..<d] @ drop d row)[d := f d ((map (\<lambda>a. f a (row ! a)) [0..<d] @ drop d row) ! d)]"
    using Suc by simp
  also have "\<dots> = map (\<lambda>a. f a (row ! a)) [0..<d] @ (drop d row)[0 := f d (drop d row ! 0)]"
    by (simp add: list_update_append nth_append)
  also have "drop d row = row ! d # drop (Suc d) row"
    using d by (simp add: Cons_nth_drop_Suc)
  finally show ?case
    by simp
qed

lemma fold_map_rows: "fold (\<lambda>a. map (h a)) xs M = map (fold h xs) M"
  by (induction xs arbitrary: M) simp_all

lemma fold_columns:
  assumes "shape n d M"
  shows "fold (\<lambda>a. map (\<lambda>row. row[a := f a (row ! a)])) [0..<d] M
           = map (\<lambda>row. map (\<lambda>a. f a (row ! a)) [0..<d]) M"
proof -
  have "fold (\<lambda>a. map (\<lambda>row. row[a := f a (row ! a)])) [0..<d] M
          = map (fold (\<lambda>a row. row[a := f a (row ! a)]) [0..<d]) M"
    by (rule fold_map_rows)
  also have "\<dots> = map (\<lambda>row. map (\<lambda>a. f a (row ! a)) [0..<d]) M"
    using assms by (intro map_cong) (simp_all add: shape_def fold_row_update)
  finally show ?thesis .
qed

lemma ncols_shape: "shape n d M \<Longrightarrow> 0 < n \<Longrightarrow> ncols M = d"
  by (cases M) (simp_all add: ncols_def shape_def)

lemma sub_columns:
  assumes "shape n d M"
  shows "fold (sub_column vs) [0..<d] M = map (\<lambda>row. map (\<lambda>a. row ! a - vs ! a) [0..<d]) M"
  using fold_columns [OF assms, of "\<lambda>a x. x - vs ! a"]
  by (simp add: sub_column_def [abs_def])

lemma div_columns:
  "fold_err (div_column vs) xs M =
     (if M \<noteq> [] \<and> (\<exists>a\<in>set xs. vs ! a = 0) then Inl DivideByZero
      else Inr (fold (\<lambda>a. map (\<lambda>row. row[a := row ! a / vs ! a])) xs M))"
  by (induction xs arbitrary: M) (auto simp: div_column_def)

lemma div_columns_shape:
  assumes "shape n d M"
  shows "fold_err (div_column vs) [0..<d] M =
     (if M \<noteq> [] \<and> (\<exists>a<d. vs ! a = 0) then Inl DivideByZero
      else Inr (map (\<lambda>row. map (\<lambda>a. row ! a / vs ! a) [0..<d]) M))"
  using fold_columns [OF assms, of "\<lambda>a x. x / vs ! a"]
  by (auto simp: div_columns)


section \<open>Mean and standard deviation\<close>

lemma mean_all_eq:
  assumes "xs \<noteq> []" and "\<forall>x\<in>set xs. x = c"
  shows "mean xs = c"
proof -
  from assms(2) have "xs = replicate (length xs) c"
    by (metis replicate_length_same)
  then have "sum_list xs = real (length xs) * c"
    by (metis sum_list_replicate)
  with assms(1) show ?thesis
    by (simp add: mean_def)
qed

lemma std_zero_iff_mean:
  assumes "xs \<noteq> []"
  shows "std xs = 0 \<longleftrightarrow> (\<forall>x\<in>set xs. x = mean xs)"
proof -
  have "std xs = 0 \<longleftrightarrow> sum_list (map (\<lambda>x. \<bar>x - mean xs\<bar>\<^sup>2) xs) = 0"
    using assms by (simp add: std_def mean_def)
  also have "\<dots> \<longleftrightarrow> (\<forall>y\<in>set (map (\<lambda>x. \<bar>x - mean xs\<bar>\<^sup>2) xs). y = 0)"
    by (rule sum_list_nonneg_eq_0_iff) auto
  also have "\<dots> \<longleftrightarrow> (\<forall>x\<in>set xs. x = mean xs)"
    by auto
  finally show ?thesis .
qed

lemma std_zero_iff:
  assumes "xs \<noteq> []"
  shows "std xs = 0 \<longleftrightarrow> constant_column xs"
proof
  assume "std xs = 0"
  with assms have "\<forall>x\<in>set xs. x = mean xs"
    by (simp add: std_zero_iff_mean)
  then show "constant_column xs"
    unfolding constant_column_def by metis
next
  assume c: "constant_column xs"
  from assms have "hd xs \<in> set xs" by simp
  with c have all: "\<forall>x\<in>set xs. x = hd xs"
    by (auto simp: constant_column_def)
  with assms have "mean xs = hd xs"
    by (rule mean_all_eq)
  with all assms show "std xs = 0"
    by (simp add: std_zero_iff_mean)
qed

lemma mean_shift: "xs \<noteq> [] \<Longrightarrow> mean (map (\<lambda>x. x - c) xs) = mean xs - c"
  by (simp add: mean_def sum_list_subtractf sum_list_triv diff_divide_distrib)

lemma std_shift: "std (map (\<lambda>x. x - c) xs) = std xs"
proof (cases "xs = []")
  case True
  then show ?thesis by (simp add: std_def)
next
  case False
  then show ?thesis
    by (simp add: std_def mean_shift comp_def)
qed

lemma column_map_rows:
  assumes "a < d"
  shows "column a (map (\<lambda>row. map (\<lambda>b. f b (row ! b)) [0..<d]) M) = map (f a) (column a M)"
  using assms by (simp add: column_def comp_def)

lemma shape_map_rows: "shape n d M \<Longrightarrow> shape n d (map (\<lambda>row. map (g row) [0..<d]) M)"
  by (auto simp: shape_def)

lemma column_nonempty: "shape n d M \<Longrightarrow> 0 < n \<Longrightarrow> column a M \<noteq> []"
  by (auto simp: column_def shape_def)

lemma standardize_result:
  assumes "shape n d M" and "0 < n"
  shows "standardize M =
     (if \<exists>a<d. std (column a M) = 0 then Inl DivideByZero
      else Inr (map (\<lambda>row. map (\<lambda>a. (row ! a - mean (column a M)) / std (column a M)) [0..<d]) M))"
proof -
  let ?M1 = "map (\<lambda>row. map (\<lambda>a. row ! a - mean (column a M)) [0..<d]) M"
  have nc: "ncols M = d"
    using assms by (rule ncols_shape)
  have "fold (sub_column (mean_axis0 M)) [0..<d] M
          = map (\<lambda>row. map (\<lambda>a. row ! a - mean_axis0 M ! a) [0..<d]) M"
    using assms(1) by (rule sub_columns)
  also have "\<dots> = ?M1"
    by (simp add: mean_axis0_def nc)
  finally have m1: "fold (sub_column (mean_axis0 M)) [0..<d] M = ?M1" .
  have sh1: "shape n d ?M1"
    using assms(1) by (rule shape_map_rows)
  then have nc1: "ncols ?M1 = d"
    using assms(2) by (rule ncols_shape)
  have sd: "std_axis0 ?M1 ! a = std (column a M)" if "a < d" for a
  proof -
    have "column a ?M1 = map (\<lambda>x. x - mean (column a M)) (column a M)"
      using that by (rule column_map_rows [where f = "\<lambda>b x. x - mean (column b M)"])
    then have "std (column a ?M1) = std (column a M)"
      by (simp add: std_shift)
    with that show ?thesis
      by (simp add: std_axis0_def nc1)
  qed
  from assms have ne: "M \<noteq> []"
    by (auto simp: shape_def)
  have "standardize M = fold_err (div_column (std_axis0 ?M1)) [0..<d] ?M1"
    by (simp add: standardize_def Let_def nc m1 nc1)
  also have "\<dots> = (if ?M1 \<noteq> [] \<and> (\<exists>a<d. std_axis0 ?M1 ! a = 0) then Inl DivideByZero
      else Inr (map (\<lambda>row. map (\<lambda>a. row ! a / std_axis0 ?M1 ! a) [0..<d]) ?M1))"
    using sh1 by (rule div_columns_shape)
  also have "\<dots> = (if \<exists>a<d. std (column a M) = 0 then Inl DivideByZero
      else Inr (map (\<lambda>row. map (\<lambda>a. (row ! a - mean (column a M)) / std (column a M)) [0..<d]) M))"
  proof -
    have ex: "(\<exists>a<d. std_axis0 ?M1 ! a = 0) \<longleftrightarrow> (\<exists>a<d. std (column a M) = 0)"
      using sd by auto
    have "map (\<lambda>row. map (\<lambda>a. row ! a / std_axis0 ?M1 ! a) [0..<d]) ?M1
        = map (\<lambda>row. map (\<lambda>a. (row ! a - mean (column a M)) / std (column a M)) [0..<d]) M"
      by (simp add: sd comp_def)
    with ne ex show ?thesis
      by simp
  qed
  finally show ?thesis .
qed

lemma standardize_ok_iff:
  assumes "shape n d M" and "0 < n"
  shows "(\<exists>M'. standardize M = Inr M') \<longleftrightarrow> (\<forall>a<d. \<not> constant_column (column a M))"
  using assms by (auto simp: standardize_result std_zero_iff column_nonempty)


section \<open>Scaling in the two notebooks\<close>

lemma div_columns_ok:
  assumes "M \<noteq> [] \<Longrightarrow> \<forall>a\<in>set xs. vs ! a \<noteq> 0"
  shows "fold_err (div_column vs) xs M
           = Inr (fold (\<lambda>a. map (\<lambda>row. row[a := row ! a / vs ! a])) xs M)"
  using assms by (auto simp: div_columns)

lemma guard_std_nth: "a < length vs \<Longrightarrow> guard_std vs ! a = (if vs ! a = 0 then 1 else vs ! a)"
  by (simp add: guard_std_def)

lemma guard_std_nonzero: "a < length vs \<Longrightarrow> guard_std vs ! a \<noteq> 0"
  by (simp add: guard_std_nth)

lemma length_std_axis0: "length (std_axis0 M) = ncols M"
  by (simp add: std_axis0_def)

lemma length_fold_update: "length (fold (\<lambda>a r. r[a := f a (r ! a)]) xs row) = length row"
  by (induction xs arbitrary: row) simp_all

lemma ncols_map_rows: "(\<And>row. length (g row) = length row) \<Longrightarrow> ncols (map g M) = ncols M"
  by (cases M) (simp_all add: ncols_def)

lemma sub_column_fold: "fold (sub_column vs) xs M = map (fold (\<lambda>a r. r[a := r ! a - vs ! a]) xs) M"
  unfolding sub_column_def [abs_def] by (rule fold_map_rows)

lemma ncols_sub_columns: "ncols (fold (sub_column vs) xs M) = ncols M"
  unfolding sub_column_fold by (rule ncols_map_rows) (rule length_fold_update)

lemma sub_columns_empty: "fold (sub_column vs) xs M = [] \<longleftrightarrow> M = []"
  by (simp add: sub_column_fold)

lemma length_sub_columns: "length (fold (sub_column vs) xs M) = length M"
  by (simp add: sub_column_fold)

lemma length_div_fold: "length (fold (\<lambda>a. map (\<lambda>row. row[a := row ! a / vs ! a])) xs M) = length M"
  by (simp add: fold_map_rows)

lemma shape_take: "shape n d M \<Longrightarrow> shape (length (take k M)) d (take k M)"
  by (auto simp: shape_def dest: in_set_takeD)

lemma shape_drop: "shape n d M \<Longrightarrow> shape (length (drop k M)) d (drop k M)"
  by (auto simp: shape_def dest: in_set_dropD)

lemma split_train_nonempty: "loaded \<noteq> [] \<Longrightarrow> split_train loaded \<noteq> []"
  by (cases loaded) (simp_all add: split_train_take samples_def)

lemma ncols_nonempty: "shape n d M \<Longrightarrow> M \<noteq> [] \<Longrightarrow> ncols M = d"
  by (cases M) (simp_all add: ncols_def shape_def)

lemma ncols_split:
  assumes "shape n d loaded"
  shows "split_train loaded \<noteq> [] \<Longrightarrow> ncols (split_train loaded) = d"
    and "split_valid loaded \<noteq> [] \<Longrightarrow> ncols (split_valid loaded) = d"
proof -
  have t: "shape (length (split_train loaded)) d (split_train loaded)"
    unfolding split_train_take using assms by (rule shape_take)
  have "shape (length (drop (nat (samples (int (length loaded)))) loaded)) d
          (drop (nat (samples (int (length loaded)))) loaded)"
    using assms by (rule shape_drop)
  then have v: "shape (length (split_valid loaded)) d (split_valid loaded)"
    unfolding split_valid_take by (rule shape_take)
  show "split_train loaded \<noteq> [] \<Longrightarrow> ncols (split_train loaded) = d"
    using t by (rule ncols_nonempty)
  show "split_valid loaded \<noteq> [] \<Longrightarrow> ncols (split_valid loaded) = d"
    using v by (rule ncols_nonempty)
qed

lemma energy_scale_ok:
  assumes "shape n d loaded"
  shows "\<exists>trainIn validIn. energy_scale loaded = Inr (trainIn, validIn)
           \<and> length trainIn = length (split_train loaded)
           \<and> length validIn = length (split_valid loaded)"
proof -
  let ?t = "split_train loaded" and ?v = "split_valid loaded"
  let ?mean = "mean_axis0 ?t" and ?std = "guard_std (std_axis0 ?t)"
  let ?t1 = "fold (sub_column ?mean) [0..<ncols ?t] ?t"
  let ?v1 = "fold (sub_column ?mean) [0..<ncols ?v] ?v"
  let ?t2 = "fold (\<lambda>a. map (\<lambda>row. row[a := row ! a / ?std ! a])) [0..<ncols ?t1] ?t1"
  let ?v2 = "fold (\<lambda>a. map (\<lambda>row. row[a := row ! a / ?std ! a])) [0..<ncols ?v1] ?v1"
  have ls: "length ?std = ncols ?t"
    by (simp add: guard_std_def length_std_axis0)
  have dt: "fold_err (div_column ?std) [0..<ncols ?t1] ?t1 = Inr ?t2"
    by (rule div_columns_ok) (simp add: ncols_sub_columns guard_std_nonzero length_std_axis0)
  have dv: "fold_err (div_column ?std) [0..<ncols ?v1] ?v1 = Inr ?v2"
  proof (rule div_columns_ok)
    assume "?v1 \<noteq> []"
    then have v: "?v \<noteq> []"
      by (simp add: sub_columns_empty)
    then have "loaded \<noteq> []"
      by (auto simp: split_valid_take)
    then have "?t \<noteq> []"
      by (rule split_train_nonempty)
    with v assms have "ncols ?v = ncols ?t"
      by (simp add: ncols_split)
    then show "\<forall>a\<in>set [0..<ncols ?v1]. ?std ! a \<noteq> 0"
      by (simp add: ncols_sub_columns guard_std_nonzero length_std_axis0)
  qed
  have "energy_scale loaded = Inr (?t2, ?v2)"
    by (simp add: energy_scale_def Let_def dt dv bind_err_def)
  then show ?thesis
    by (simp add: length_div_fold length_sub_columns)
qed

text \<open>
  Claim C9. In the energy-prediction notebook every zero entry of the training standard
  deviations is replaced by 1 before the division (the guarded entry is the raw one where
  that is not zero, 1 otherwise, and never zero), so the scaling of the training and of
  the validation rows returns for every rectangular loaded array, constant columns
  included. The dimer notebook's scaling divides by the raw standard deviation: on an
  array with at least one row it returns exactly when no column of \<open>acsf\<close> is constant.
\<close>

theorem scaling_well_defined:
  assumes "shape n d loaded" and "shape n' d' acsf" and "0 < n'"
  shows "(\<exists>trainIn validIn. energy_scale loaded = Inr (trainIn, validIn))
       \<and> (\<forall>a<ncols (split_train loaded).
             guard_std (std_axis0 (split_train loaded)) ! a
               = (if std_axis0 (split_train loaded) ! a = 0 then 1 else std_axis0 (split_train loaded) ! a)
             \<and> guard_std (std_axis0 (split_train loaded)) ! a \<noteq> 0)
       \<and> ((\<exists>M. standardize acsf = Inr M) \<longleftrightarrow> (\<forall>a<d'. \<not> constant_column (column a acsf)))"
proof -
  have "\<exists>trainIn validIn. energy_scale loaded = Inr (trainIn, validIn)"
    using energy_scale_ok [OF assms(1)] by blast
  moreover have "(\<exists>M. standardize acsf = Inr M) \<longleftrightarrow> (\<forall>a<d'. \<not> constant_column (column a acsf))"
    using assms(2,3) by (rule standardize_ok_iff)
  ultimately show ?thesis
    by (simp add: guard_std_nth length_std_axis0)
qed

lemma sqrt_quarter: "sqrt (1 / 4) = 1 / 2"
  by (simp add: real_sqrt_divide)

theorem scaling_well_defined_witness:
  "constant_column (column 0 [[1, 2], [1, 3]])
   \<and> energy_scale [[1, 2], [1, 3]] = Inr ([[0, - 1], [0, 1]], [])
   \<and> \<not> (\<exists>M. standardize [[1, 2], [1, 3]] = Inr M)"
proof -
  have sh: "shape 2 2 [[1, 2], [1, 3]]"
    by (simp add: shape_def)
  have c: "constant_column (column 0 [[1, 2], [1, 3]])"
    by (simp add: constant_column_def column_def)
  have e: "energy_scale [[1, 2], [1, 3]] = Inr ([[0, - 1], [0, 1]], [])"
    by (simp add: energy_scale_def split_train_take split_valid_take samples_def vsamples_def
          ncols_def mean_axis0_def std_axis0_def column_def mean_def std_def guard_std_def
          sub_column_def div_column_def bind_err_def upt_rec [of 0 2] upt_rec [of 1 2] Let_def power2_eq_square
          sqrt_quarter)
  from c show ?thesis
    using scaling_well_defined [OF sh sh] e by auto
qed


section \<open>The matrix acsf after the fill loop\<close>

lemma fold_cong_inv:
  assumes "I s" and "\<And>x s. x \<in> set xs \<Longrightarrow> I s \<Longrightarrow> f x s = g x s \<and> I (g x s)"
  shows "fold f xs s = fold g xs s"
  using assms by (induction xs arbitrary: s) simp_all

lemma fold_set_row:
  "k < length G \<Longrightarrow>
     fold (\<lambda>q G. set_at k (Suc q) (w q) G) qs G = G[k := fold (\<lambda>q row. row[Suc q := w q]) qs (G ! k)]"
  by (induction qs arbitrary: G) (simp_all add: set_at_def)

lemma fold_tail_update:
  "fold (\<lambda>q row. row[Suc q := w q]) qs (v # t) = v # fold (\<lambda>q t. t[q := w q]) qs t"
  by (induction qs arbitrary: t) simp_all

lemma fold_assign_all:
  "length t = n \<Longrightarrow> fold (\<lambda>q t. t[q := w q]) [0..<n] t = map w [0..<n]"
  using fold_row_update [of n t "\<lambda>a _. w a"] by simp

lemma map_params: "map (\<lambda>q. case params ! q of (eta, rs) \<Rightarrow> h eta rs) [0..<length params]
    = map (\<lambda>(eta, rs). h eta rs) params"
  by (rule nth_equalityI) simp_all

lemma acsf_conf_step_row:
  assumes "k < length G" and "length (G ! k) = 1 + length params"
  shows "acsf_conf_step dists params k G = G[k := acsf_row params (dists ! k)]"
proof -
  let ?r = "dists ! k"
  let ?w = "\<lambda>q. case params ! q of (eta, rs) \<Rightarrow> G1f_dimer ?r eta rs"
  let ?G0 = "set_at k 0 (fcut_dimer ?r) G"
  from assms(2) obtain v t where row: "G ! k = v # t" and t: "length t = length params"
    by (cases "G ! k") simp_all
  have g0: "?G0 ! k = fcut_dimer ?r # t" and l0: "k < length ?G0"
    using assms(1) row by (simp_all add: set_at_def)
  have "acsf_conf_step dists params k G
          = fold (\<lambda>q G. set_at k (Suc q) (?w q) G) [0..<length params] ?G0"
    by (simp add: acsf_conf_step_def acsf_param_step_def [abs_def] Let_def split_beta)
  also have "\<dots> = ?G0[k := fold (\<lambda>q row. row[Suc q := ?w q]) [0..<length params] (?G0 ! k)]"
    using l0 by (rule fold_set_row)
  also have "fold (\<lambda>q row. row[Suc q := ?w q]) [0..<length params] (?G0 ! k)
          = fcut_dimer ?r # map ?w [0..<length params]"
    using t by (simp add: g0 fold_tail_update fold_assign_all)
  also have "map ?w [0..<length params] = map (\<lambda>(eta, rs). G1f_dimer ?r eta rs) params"
    by (rule map_params)
  finally show ?thesis
    by (simp add: set_at_def acsf_row_def)
qed

lemma acsf_fill_rows: "acsf_fill dists params = map (acsf_row params) dists"
proof -
  let ?n = "length dists" and ?d = "1 + length params"
  have "fold (acsf_conf_step dists params) [0..<?n] (zeros ?n ?d)
          = fold (\<lambda>k G. G[k := acsf_row params (dists ! k)]) [0..<?n] (zeros ?n ?d)"
  proof (rule fold_cong_inv [where I = "shape ?n ?d"])
    show "shape ?n ?d (zeros ?n ?d)" by (rule shape_zeros)
  next
    fix k G
    assume k: "k \<in> set [0..<?n]" and sh: "shape ?n ?d G"
    then have "k < length G" "length (G ! k) = ?d"
      by (simp_all add: shape_nth) (simp add: shape_def)
    then have "acsf_conf_step dists params k G = G[k := acsf_row params (dists ! k)]"
      by (rule acsf_conf_step_row)
    moreover have "shape ?n ?d (G[k := acsf_row params (dists ! k)])"
      using sh by (rule shape_list_update) (simp add: acsf_row_def)
    ultimately show "acsf_conf_step dists params k G = G[k := acsf_row params (dists ! k)]
        \<and> shape ?n ?d (G[k := acsf_row params (dists ! k)])"
      by simp
  qed
  also have "\<dots> = map (\<lambda>k. acsf_row params (dists ! k)) [0..<?n]"
    using fold_row_update [of ?n "zeros ?n ?d" "\<lambda>k _. acsf_row params (dists ! k)"]
    by (simp add: zeros_def)
  also have "\<dots> = map (acsf_row params) dists"
    by (rule nth_equalityI) simp_all
  finally show ?thesis
    by (simp add: acsf_fill_def Let_def)
qed

lemma mean_pair: "mean [v, 0] = v / 2"
  by (simp add: mean_def)

lemma std_pair: "0 < v \<Longrightarrow> std [v, 0] = v / 2"
proof -
  assume v: "0 < v"
  have "mean (map (\<lambda>x. \<bar>x - mean [v, 0]\<bar>\<^sup>2) [v, 0]) = (v / 2)\<^sup>2"
    by (simp add: mean_def power2_eq_square field_simps)
  then have "std [v, 0] = sqrt ((v / 2)\<^sup>2)"
    by (simp add: std_def)
  with v show ?thesis
    by simp
qed

lemma standardize_two_rows:
  assumes "0 < v1" "0 < v2" "0 < v3"
  shows "standardize [[v1, v2, v3], [0, 0, 0]] = Inr [[1, 1, 1], [- 1, - 1, - 1]]"
proof -
  have sh: "shape 2 3 [[v1, v2, v3], [0, 0, 0]]"
    by (simp add: shape_def)
  have col: "column 0 [[v1, v2, v3], [0, 0, 0]] = [v1, 0]"
    "column (Suc 0) [[v1, v2, v3], [0, 0, 0]] = [v2, 0]"
    "column 2 [[v1, v2, v3], [0, 0, 0]] = [v3, 0]"
    by (simp_all add: column_def)
  have "std (column a [[v1, v2, v3], [0, 0, 0]]) \<noteq> 0" if "a < 3" for a
  proof -
    from that consider "a = 0" | "a = Suc 0" | "a = 2"
      by linarith
    then show ?thesis
      using assms by cases (simp_all add: col std_pair)
  qed
  then have ex: "(\<exists>a<3. std (column a [[v1, v2, v3], [0, 0, 0]]) = 0) \<longleftrightarrow> False"
    by blast
  show ?thesis
    using assms unfolding standardize_result [OF sh zero_less_numeral] ex
    by (simp add: upt_3 col mean_pair std_pair)
qed

lemma acsf_example:
  "acsf_fill [5 / 2, 5] params_dimer
     = [[1 / 2, G1f_dimer (5 / 2) (2 / 5) (1 / 5), G1f_dimer (5 / 2) (2 / 5) (1 / 2)], [0, 0, 0]]"
  by (simp add: acsf_fill_rows acsf_row_def params_dimer_def fcut_dimer_def G1f_dimer_def Rcut_def)

lemma G1f_dimer_pos: "0 \<le> r \<Longrightarrow> r < Rcut \<Longrightarrow> 0 < G1f_dimer r eta Rs"
proof -
  assume r: "0 \<le> r" "r < Rcut"
  then have "0 \<le> pi * r / Rcut" "pi * r / Rcut < pi"
    by (simp_all add: Rcut_def)
  then have "- 1 < cos (pi * r / Rcut)"
    using cos_monotone_0_pi [of "pi * r / Rcut" pi] by simp
  with r show ?thesis
    by (simp add: G1f_dimer_def fcut_dimer_def)
qed

text \<open>
  Claim C3 says that no operation changes an entry of \<open>acsf\<close> once the fill loop is done.
  The next cell of the notebook centres and rescales \<open>acsf\<close> in place: for the distances
  5/2 and 5 and the notebook's parameter list, the entry \<open>acsf[0,0]\<close> is 1/2 after the
  fill loop and 1 after that cell.
\<close>

theorem acsf_changes_after_fill:
  "acsf_fill [5 / 2, 5] params_dimer ! 0 ! 0 = 1 / 2
   \<and> standardize (acsf_fill [5 / 2, 5] params_dimer) = Inr [[1, 1, 1], [- 1, - 1, - 1]]"
  by (simp add: acsf_example standardize_two_rows G1f_dimer_pos Rcut_def)


lemma shape_acsf_rows: "shape (length dists) (1 + length params) (map (acsf_row params) dists)"
  by (simp add: shape_def acsf_row_def)

text \<open>
  Claim C3, amended. The fill loop computes row \<open>k\<close> of \<open>acsf\<close> from \<open>dists[k]\<close> and the
  parameter list alone: \<open>fcut(dists[k])\<close> followed by \<open>G1f(dists[k], eta, rs)\<close> for each pair
  of \<open>params\<close>. The cell after it then changes \<open>acsf\<close> in place: when no column is constant,
  every entry becomes the entry minus the mean of its column, divided by the standard
  deviation of its column, and the shape stays \<open>nConfs\<close> by \<open>1 + len(params)\<close>.
\<close>

theorem acsf_filled_then_standardized:
  assumes "k < length dists" and "a < 1 + length params"
    and "\<forall>b<1 + length params. \<not> constant_column (column b (acsf_fill dists params))"
  shows "acsf_fill dists params ! k
           = fcut_dimer (dists ! k) # map (\<lambda>(eta, rs). G1f_dimer (dists ! k) eta rs) params
       \<and> (\<exists>M. standardize (acsf_fill dists params) = Inr M
            \<and> map length M = replicate (length dists) (1 + length params)
            \<and> M ! k ! a = (acsf_fill dists params ! k ! a - mean (column a (acsf_fill dists params)))
                            / std (column a (acsf_fill dists params)))"
proof -
  let ?F = "acsf_fill dists params" and ?d = "1 + length params"
  let ?M = "map (\<lambda>row. map (\<lambda>a. (row ! a - mean (column a ?F)) / std (column a ?F)) [0..<?d]) ?F"
  have sh: "shape (length dists) ?d ?F"
    unfolding acsf_fill_rows by (rule shape_acsf_rows)
  have n: "0 < length dists"
    using assms(1) by (cases dists) simp_all
  have row: "?F ! k = fcut_dimer (dists ! k) # map (\<lambda>(eta, rs). G1f_dimer (dists ! k) eta rs) params"
    using assms(1) by (simp add: acsf_fill_rows acsf_row_def)
  have "\<not> (\<exists>b<?d. std (column b ?F) = 0)"
    using assms(3) sh n by (simp add: std_zero_iff column_nonempty)
  then have st: "standardize ?F = Inr ?M"
    using standardize_result [OF sh n] by simp
  have "shape (length dists) ?d ?M"
    using sh by (rule shape_map_rows)
  then have len: "map length ?M = replicate (length dists) ?d"
    by (simp add: shape_map_length)
  have "k < length ?F"
    using assms(1) sh by (simp add: shape_def)
  then have "?M ! k ! a = (?F ! k ! a - mean (column a ?F)) / std (column a ?F)"
    using assms(2) by (simp del: upt_Suc)
  with row st len show ?thesis
    by blast
qed

theorem acsf_filled_then_standardized_witness:
  "acsf_fill [5 / 2, 5] params_dimer ! 0
     = [1 / 2, G1f_dimer (5 / 2) (2 / 5) (1 / 5), G1f_dimer (5 / 2) (2 / 5) (1 / 2)]
   \<and> (\<exists>M. standardize (acsf_fill [5 / 2, 5] params_dimer) = Inr M \<and> M ! 0 ! 0 = 1)"
proof -
  let ?F = "acsf_fill [5 / 2, 5] params_dimer"
  have pos: "0 < G1f_dimer (5 / 2) (2 / 5) (1 / 5)" "0 < G1f_dimer (5 / 2) (2 / 5) (1 / 2)"
    by (simp_all add: G1f_dimer_pos Rcut_def)
  have nc: "\<not> constant_column (column b ?F)" if "b < 1 + length params_dimer" for b
  proof -
    from that have "b < 3"
      by (simp add: params_dimer_def)
    then consider "b = 0" | "b = Suc 0" | "b = 2"
      by linarith
    then show ?thesis
      using pos by cases (auto simp: acsf_example column_def constant_column_def)
  qed
  then have hyp: "\<forall>b<1 + length params_dimer. \<not> constant_column (column b ?F)"
    by blast
  have k: "(0::nat) < length [5 / 2, 5 :: real]" and a: "(0::nat) < 1 + length params_dimer"
    by simp_all
  from acsf_filled_then_standardized [OF k a hyp]
  obtain M where M: "standardize ?F = Inr M"
    "M ! 0 ! 0 = (?F ! 0 ! 0 - mean (column 0 ?F)) / std (column 0 ?F)"
    by blast
  have col: "column 0 ?F = [1 / 2, 0]"
    by (simp add: acsf_example column_def)
  have "M ! 0 ! 0 = 1"
    unfolding M(2) col by (simp add: acsf_example mean_pair std_pair)
  with M(1) show ?thesis
    by (simp add: acsf_example)
qed

end
